theory Spec2Isabelle
  imports Complex_Main "HOL-Library.Word" "HOL-Library.Sublist"
begin

section \<open>JavaScript strings\<close>

text \<open>
  A JavaScript string is a sequence of 16-bit UTF-16 code units. A character outside the
  basic plane (every emoji of the source) is two code units, a surrogate pair. Regular
  expressions without the \<open>u\<close> flag, \<open>includes\<close>, \<open>split\<close> and \<open>trim\<close> all work on
  code units.
\<close>

type_synonym jchar = "16 word"
type_synonym jstr = "jchar list"

text \<open>The line terminators: the code units that \<open>.\<close> of a regular expression rejects.\<close>

definition is_lt :: "jchar \<Rightarrow> bool" where
  "is_lt c \<longleftrightarrow> c = 0x0A \<or> c = 0x0D \<or> c = 0x2028 \<or> c = 0x2029"

text \<open>White space: what \<open>\s\<close> matches and what \<open>trim\<close> removes (the same set).\<close>

definition is_ws :: "jchar \<Rightarrow> bool" where
  "is_ws c \<longleftrightarrow>
     c = 0x09 \<or> c = 0x0A \<or> c = 0x0B \<or> c = 0x0C \<or> c = 0x0D \<or> c = 0x20 \<or> c = 0xA0 \<or>
     c = 0x1680 \<or> (0x2000 \<le> c \<and> c \<le> 0x200A) \<or> c = 0x2028 \<or> c = 0x2029 \<or>
     c = 0x202F \<or> c = 0x205F \<or> c = 0x3000 \<or> c = 0xFEFF"

definition trim :: "jstr \<Rightarrow> jstr" where
  "trim s = rev (dropWhile is_ws (rev (dropWhile is_ws s)))"

definition starts_with :: "jstr \<Rightarrow> jstr \<Rightarrow> bool" where
  "starts_with s p \<longleftrightarrow> take (length p) s = p"

fun js_includes :: "jstr \<Rightarrow> jstr \<Rightarrow> bool" where
  "js_includes [] sub = (sub = [])"
| "js_includes (c # s) sub = (starts_with (c # s) sub \<or> js_includes s sub)"

text \<open>
  \<open>s.split(sep)\<close> for a separator that matches one code unit: \<open>n\<close> separators give
  \<open>n + 1\<close> pieces, and the empty string gives one empty piece.
\<close>

fun split_where :: "(jchar \<Rightarrow> bool) \<Rightarrow> jstr \<Rightarrow> jstr list" where
  "split_where P [] = [[]]"
| "split_where P (c # s) =
     (if P c then [] # split_where P s
      else (case split_where P s of
              [] \<Rightarrow> [[c]]
            | piece # pieces \<Rightarrow> (c # piece) # pieces))"

definition split_on :: "jchar \<Rightarrow> jstr \<Rightarrow> jstr list" where
  "split_on sep s = split_where (\<lambda>c. c = sep) s"

text \<open>\<open>lines.join('\n')\<close>\<close>

fun join_nl :: "jstr list \<Rightarrow> jstr" where
  "join_nl [] = []"
| "join_nl [l] = l"
| "join_nl (l # l' # ls) = l @ [0x0A] @ join_nl (l' # ls)"

section \<open>Regular expressions as backtracking matchers\<close>

text \<open>
  Each regular expression of the source is written as a chain of matchers in continuation
  style: a matcher takes what follows it in the pattern (the continuation \<open>k\<close>) and the rest
  of the input, and gives the result of the first way of matching that the engine tries and
  that lets the continuation succeed. A greedy quantifier tries the longer match first, a
  lazy one the shorter.
\<close>

definition lit :: "jstr \<Rightarrow> (jstr \<Rightarrow> 'a option) \<Rightarrow> jstr \<Rightarrow> 'a option" where
  "lit p k r = (if starts_with r p then k (drop (length p) r) else None)"

text \<open>\<open>\s*\<close>, greedy\<close>

fun ws_star :: "(jstr \<Rightarrow> 'a option) \<Rightarrow> jstr \<Rightarrow> 'a option" where
  "ws_star k [] = k []"
| "ws_star k (c # r) =
     (if is_ws c then (case ws_star k r of Some m \<Rightarrow> Some m | None \<Rightarrow> k (c # r))
      else k (c # r))"

text \<open>\<open>\s+\<close>, greedy\<close>

definition ws_plus :: "(jstr \<Rightarrow> 'a option) \<Rightarrow> jstr \<Rightarrow> 'a option" where
  "ws_plus k r = (case r of [] \<Rightarrow> None | c # r' \<Rightarrow> if is_ws c then ws_star k r' else None)"

text \<open>\<open>[...]?\<close>, greedy: one code unit of the class if possible, else none\<close>

definition opt_class :: "(jchar \<Rightarrow> bool) \<Rightarrow> (jstr \<Rightarrow> 'a option) \<Rightarrow> jstr \<Rightarrow> 'a option" where
  "opt_class P k r =
     (case r of
        [] \<Rightarrow> k []
      | c # r' \<Rightarrow> if P c then (case k r' of Some m \<Rightarrow> Some m | None \<Rightarrow> k r) else k r)"

text \<open>\<open>[...]\<close>: exactly one code unit of the class\<close>

definition one_of :: "(jchar \<Rightarrow> bool) \<Rightarrow> (jstr \<Rightarrow> 'a option) \<Rightarrow> jstr \<Rightarrow> 'a option" where
  "one_of P k r = (case r of [] \<Rightarrow> None | c # r' \<Rightarrow> if P c then k r' else None)"

text \<open>\<open>(a|b|c)\<close>: the alternatives in order\<close>

fun alts :: "jstr list \<Rightarrow> (jstr \<Rightarrow> 'a option) \<Rightarrow> jstr \<Rightarrow> 'a option" where
  "alts [] k r = None"
| "alts (a # as) k r = (case lit a k r of Some m \<Rightarrow> Some m | None \<Rightarrow> alts as k r)"

text \<open>
  \<open>(.+)\<close> at the end of a pattern: the longest run of code units that are not line
  terminators, at least one; the run is the captured group.
\<close>

definition dot_plus :: "jstr \<Rightarrow> jstr option" where
  "dot_plus r = (let m = takeWhile (\<lambda>c. \<not> is_lt c) r in if m = [] then None else Some m)"

text \<open>The end of a pattern used only as a test.\<close>

definition accept :: "jstr \<Rightarrow> unit option" where
  "accept r = Some ()"

text \<open>The end of a pattern used by \<open>replace\<close>: what is left after the match.\<close>

definition rest :: "jstr \<Rightarrow> jstr option" where
  "rest r = Some r"

text \<open>
  An unanchored pattern is tried at every position from the left; \<open>replace\<close> without the
  \<open>g\<close> flag removes the first match.
\<close>

fun search :: "(jstr \<Rightarrow> 'a option) \<Rightarrow> jstr \<Rightarrow> 'a option" where
  "search m [] = m []"
| "search m (c # s) = (case m (c # s) of Some x \<Rightarrow> Some x | None \<Rightarrow> search m s)"

fun remove_first :: "(jstr \<Rightarrow> jstr option) \<Rightarrow> jstr \<Rightarrow> jstr" where
  "remove_first m [] = (case m [] of Some r \<Rightarrow> r | None \<Rightarrow> [])"
| "remove_first m (c # s) = (case m (c # s) of Some r \<Rightarrow> r | None \<Rightarrow> c # remove_first m s)"

section \<open>The string constants of the source\<close>

abbreviation (input) nl :: jchar where "nl \<equiv> 0x0A"
abbreviation (input) space :: jchar where "space \<equiv> 0x20"
abbreviation (input) hash :: jchar where "hash \<equiv> 0x23"
abbreviation (input) star :: jchar where "star \<equiv> 0x2A"
abbreviation (input) minus :: jchar where "minus \<equiv> 0x2D"
abbreviation (input) bar :: jchar where "bar \<equiv> 0x7C"
abbreviation (input) colon :: jchar where "colon \<equiv> 0x3A"
abbreviation (input) semicolon :: jchar where "semicolon \<equiv> 0x3B"
abbreviation (input) lparen :: jchar where "lparen \<equiv> 0x28"
abbreviation (input) rparen :: jchar where "rparen \<equiv> 0x29"
abbreviation (input) fw_colon :: jchar where "fw_colon \<equiv> 0xFF1A"
abbreviation (input) fw_semicolon :: jchar where "fw_semicolon \<equiv> 0xFF1B"
abbreviation (input) fw_lparen :: jchar where "fw_lparen \<equiv> 0xFF08"
abbreviation (input) fw_rparen :: jchar where "fw_rparen \<equiv> 0xFF09"
abbreviation (input) jin :: jchar where "jin \<equiv> 0x4ECA"

text \<open>Section headers: U+4EBA U+7269 U+6863 U+6848 and so on, as in the source text.\<close>

definition s_profile :: jstr where "s_profile = [0x4EBA, 0x7269, 0x6863, 0x6848]"
definition s_basic_info :: jstr where "s_basic_info = [0x57FA, 0x672C, 0x4FE1, 0x606F]"
definition s_journey :: jstr where "s_journey = [0x4EBA, 0x751F, 0x5386, 0x7A0B]"
definition s_important :: jstr where "s_important = [0x91CD, 0x8981, 0x5730, 0x70B9]"
definition s_timeline :: jstr where "s_timeline = [0x751F, 0x5E73, 0x65F6, 0x95F4, 0x7EBF]"
definition s_overview :: jstr where "s_overview = [0x751F, 0x5E73, 0x6982, 0x8FF0]"
definition s_year_col :: jstr where "s_year_col = [0x5E74, 0x4EFD]"

text \<open>Profile keys.\<close>

definition k_name :: jstr where "k_name = [0x59D3, 0x540D]"
definition k_era :: jstr where "k_era = [0x65F6, 0x4EE3]"
definition k_dynasty :: jstr where "k_dynasty = [0x671D, 0x4EE3]"
definition k_birth :: jstr where "k_birth = [0x51FA, 0x751F]"
definition k_death :: jstr where "k_death = [0x53BB, 0x4E16]"
definition k_age :: jstr where "k_age = [0x4EAB, 0x5E74]"
definition k_roles :: jstr where "k_roles = [0x4E3B, 0x8981, 0x8EAB, 0x4EFD]"

text \<open>Header markers of a location.\<close>

definition s_birthplace :: jstr where "s_birthplace = [0x51FA, 0x751F, 0x5730]"
definition s_deathplace :: jstr where "s_deathplace = [0x53BB, 0x4E16, 0x5730]"

text \<open>Key patterns of the location fields, alternatives separated by \<open>|\<close>.\<close>

definition kp_time :: jstr where
  "kp_time = [0x516C, 0x5143, 0x7EAA, 0x5E74, bar, 0x65F6, 0x95F4, bar, 0x65F6, 0x6BB5]"
definition kp_event :: jstr where
  "kp_event = [0x4E8B, 0x8FF9, bar, 0x7ECF, 0x8FC7, bar, 0x4E8B, 0x4EF6]"
definition kp_significance :: jstr where
  "kp_significance = [0x610F, 0x4E49, bar, 0x5F71, 0x54CD]"
definition kp_quotes :: jstr where
  "kp_quotes = [0x540D, 0x7BC7, 0x540D, 0x53E5, bar, 0x4EE3, 0x8868, 0x540D, 0x53E5, bar,
                0x540D, 0x53E5]"
definition kp_location :: jstr where
  "kp_location = [0x4F4D, 0x7F6E, bar, 0x5730, 0x70B9]"

definition bold :: "jstr \<Rightarrow> jstr" where
  "bold k = [star, star] @ k @ [star, star]"

section \<open>markdownParser.js\<close>

subsection \<open>extractField\<close>

text \<open>
  \<open>new RegExp(`^-\\s*\\*\\*(${keyPattern})\\*\\*\<colon>\\s*(.+)`)\<close>, where the colon is the
  full-width one (U+FF1A). Every key pattern of the source is a list of literal
  alternatives separated by \<open>|\<close>, without any other regular-expression operator, and
  that is how \<open>keyPattern\<close> is read here. The result is \<open>match[2].trim()\<close>, or \<open>null\<close>
  (\<open>None\<close>) when the line does not match.
\<close>

definition extractField :: "jstr \<Rightarrow> jstr \<Rightarrow> jstr option" where
  "extractField line keyPattern =
     map_option trim
       ((lit [minus] (ws_star (lit [star, star] (alts (split_on bar keyPattern)
          (lit [star, star, fw_colon] (ws_star dot_plus)))))) line)"

subsection \<open>extractSection\<close>

text \<open>\<open>line.match(/^##\s+/)\<close>\<close>

definition is_h2 :: "jstr \<Rightarrow> bool" where
  "is_h2 line \<longleftrightarrow> lit [hash, hash] (ws_plus accept) line \<noteq> None"

text \<open>
  The loop over the lines: a second-level header that matches the pattern opens the
  section (and is not kept), any other second-level header closes an open section
  (\<open>break\<close>), and the lines of an open section are collected.
\<close>

fun section_lines :: "(jstr \<Rightarrow> bool) \<Rightarrow> bool \<Rightarrow> jstr list \<Rightarrow> jstr list" where
  "section_lines headerPattern inSection [] = []"
| "section_lines headerPattern inSection (line # ls) =
     (if is_h2 line \<and> headerPattern line then section_lines headerPattern True ls
      else if is_h2 line \<and> inSection then []
      else if inSection then line # section_lines headerPattern inSection ls
      else section_lines headerPattern inSection ls)"

definition extractSection :: "jstr \<Rightarrow> (jstr \<Rightarrow> bool) \<Rightarrow> jstr" where
  "extractSection text headerPattern =
     join_nl (section_lines headerPattern False (split_on nl text))"

text \<open>The three header patterns: an unanchored alternation of literals.\<close>

definition profile_header :: "jstr \<Rightarrow> bool" where
  "profile_header line \<longleftrightarrow> js_includes line s_profile \<or> js_includes line s_basic_info"

definition location_header :: "jstr \<Rightarrow> bool" where
  "location_header line \<longleftrightarrow> js_includes line s_journey \<or> js_includes line s_important"

definition timeline_header :: "jstr \<Rightarrow> bool" where
  "timeline_header line \<longleftrightarrow> js_includes line s_timeline"

subsection \<open>The records of the result\<close>

text \<open>
  \<open>result.person\<close> starts as the empty object and gets its properties by assignment: a
  map from the property name to the value assigned, \<open>None\<close> standing for \<open>null\<close> (the
  result of \<open>extractField\<close> on a line that does not match). A property that was never
  assigned is absent from the map (\<open>undefined\<close>).
\<close>

type_synonym person = "string \<rightharpoonup> jstr option"

datatype loc_type = Normal | Birth | Death

record location =
  name :: jstr
  type :: loc_type
  time :: jstr
  desc :: jstr
  significance :: jstr
  quotes :: "jstr list"
  locationDesc :: "jstr option"

record timeline_entry =
  year :: jstr
  age :: jstr
  event :: jstr

record parse_result =
  person :: person
  locations :: "location list"
  timeline :: "timeline_entry list"
  intro :: jstr

definition empty_result :: parse_result where
  "empty_result = \<lparr>person = Map.empty, locations = [], timeline = [], intro = []\<rparr>"

subsection \<open>The profile section\<close>

text \<open>\<open>line.match(/^###\s+\<dots>/)\<close> with the overview title (U+751F U+5E73 U+6982 U+8FF0)\<close>

definition is_overview_header :: "jstr \<Rightarrow> bool" where
  "is_overview_header line \<longleftrightarrow>
     lit [hash, hash, hash] (ws_plus (lit s_overview accept)) line \<noteq> None"

text \<open>
  One turn of the loop over the lines of the profile section. The state is
  \<open>result.person\<close>, \<open>result.intro\<close> and whether \<open>currentKey\<close> is \<open>"overview"\<close>.
\<close>

definition profile_line :: "person \<times> jstr \<times> bool \<Rightarrow> jstr \<Rightarrow> person \<times> jstr \<times> bool" where
  "profile_line st line =
     (case st of (p, intro_text, overview) \<Rightarrow>
        let p = (if js_includes line (bold k_name)
                 then p(''name'' \<mapsto> extractField line k_name) else p);
            p = (if js_includes line (bold k_era)
                 then p(''era'' \<mapsto> extractField line (k_era @ [bar] @ k_dynasty)) else p);
            p = (if js_includes line (bold k_birth)
                 then p(''birth'' \<mapsto> extractField line k_birth) else p);
            p = (if js_includes line (bold k_death)
                 then p(''death'' \<mapsto> extractField line k_death) else p);
            p = (if js_includes line (bold k_age)
                 then p(''age'' \<mapsto> extractField line k_age) else p);
            p = (if js_includes line (bold k_roles)
                 then p(''roles'' \<mapsto> extractField line k_roles) else p)
        in if is_overview_header line then (p, intro_text, True)
           else if overview \<and> trim line \<noteq> [] \<and> \<not> starts_with line [hash]
           then (p, intro_text @ trim line @ [space], overview)
           else (p, intro_text, overview))"

subsection \<open>The location section\<close>

text \<open>
  \<open>/^###\s+[\<dots>]?\s*(.+)/\<close>: the class lists three emoji (U+1F7E2, U+1F534, U+1F4CD), and
  the pattern has no \<open>u\<close> flag, so the class holds their code units, the high surrogate
  D83D and the low surrogates DFE2, DD34 and DCCD, and matches one of them.
\<close>

definition marker_unit :: "jchar \<Rightarrow> bool" where
  "marker_unit c \<longleftrightarrow> c = 0xD83D \<or> c = 0xDFE2 \<or> c = 0xDD34 \<or> c = 0xDCCD"

definition header_match :: "jstr \<Rightarrow> jstr option" where
  "header_match line =
     lit [hash, hash, hash] (ws_plus (opt_class marker_unit (ws_star dot_plus))) line"

text \<open>\<open>name.replace(/<marker>[\<colon>:]\s*/, "")\<close>, the colon full-width or not\<close>

definition strip_marker :: "jstr \<Rightarrow> jstr \<Rightarrow> jstr" where
  "strip_marker marker s =
     remove_first (lit marker (one_of (\<lambda>c. c = fw_colon \<or> c = colon) (ws_star rest))) s"

text \<open>
  \<open>name.replace(/^[\u{1F300}-\u{1F9FF}]/u, "")\<close>: with the \<open>u\<close> flag the class matches one
  code point, here always a surrogate pair.
\<close>

definition code_point :: "jchar \<Rightarrow> jchar \<Rightarrow> nat" where
  "code_point hi lo = 0x10000 + (unat hi - 0xD800) * 0x400 + (unat lo - 0xDC00)"

definition strip_leading_emoji :: "jstr \<Rightarrow> jstr" where
  "strip_leading_emoji s =
     (case s of
        hi # lo # r \<Rightarrow>
          if 0xD800 \<le> hi \<and> hi \<le> 0xDBFF \<and> 0xDC00 \<le> lo \<and> lo \<le> 0xDFFF
             \<and> 0x1F300 \<le> code_point hi lo \<and> code_point hi lo \<le> 0x1F9FF
          then r else s
      | _ \<Rightarrow> s)"

text \<open>The record that a header opens, from the captured group of the header.\<close>

definition new_location :: "jstr \<Rightarrow> location" where
  "new_location captured =
     (let name0 = trim captured;
          (ty, name1) =
            (if js_includes name0 s_birthplace then (Birth, strip_marker s_birthplace name0)
             else if js_includes name0 s_deathplace then (Death, strip_marker s_deathplace name0)
             else if js_includes name0 s_important then (Normal, strip_marker s_important name0)
             else (Normal, name0))
      in \<lparr>name = trim (strip_leading_emoji name1), type = ty, time = [], desc = [],
          significance = [], quotes = [], locationDesc = None\<rparr>)"

text \<open>
  A line that is not a header, read into the open record. Each field is assigned only
  when the extracted value is truthy: neither \<open>null\<close> nor the empty string.
\<close>

definition split_quotes :: "jstr \<Rightarrow> jstr list" where
  "split_quotes q =
     filter (\<lambda>s. s \<noteq> []) (map trim (split_where (\<lambda>c. c = fw_semicolon \<or> c = semicolon) q))"

definition read_fields :: "location \<Rightarrow> jstr \<Rightarrow> location" where
  "read_fields loc line =
     (let loc = (case extractField line kp_time of
                   Some t \<Rightarrow> if t \<noteq> [] then loc\<lparr>time := t\<rparr> else loc
                 | None \<Rightarrow> loc);
          loc = (case extractField line kp_event of
                   Some e \<Rightarrow> if e \<noteq> [] then loc\<lparr>desc := e\<rparr> else loc
                 | None \<Rightarrow> loc);
          loc = (case extractField line kp_significance of
                   Some sg \<Rightarrow> if sg \<noteq> [] then loc\<lparr>significance := sg\<rparr> else loc
                 | None \<Rightarrow> loc);
          loc = (case extractField line kp_quotes of
                   Some q \<Rightarrow> if q \<noteq> [] then loc\<lparr>quotes := split_quotes q\<rparr> else loc
                 | None \<Rightarrow> loc)
      in (case extractField line kp_location of
            Some d \<Rightarrow> if d \<noteq> [] then loc\<lparr>locationDesc := Some d\<rparr> else loc
          | None \<Rightarrow> loc))"

text \<open>
  One turn of the loop over the lines of the location section. The state is
  \<open>result.locations\<close> and \<open>currentLocation\<close> (\<open>None\<close> for \<open>null\<close>).
\<close>

definition location_line ::
  "location list \<times> location option \<Rightarrow> jstr \<Rightarrow> location list \<times> location option" where
  "location_line st line =
     (case st of (acc, currentLocation) \<Rightarrow>
        (case header_match line of
           Some captured \<Rightarrow>
             ((case currentLocation of Some c \<Rightarrow> acc @ [c] | None \<Rightarrow> acc),
              Some (new_location captured))
         | None \<Rightarrow>
             (case currentLocation of
                Some c \<Rightarrow> (acc, Some (read_fields c line))
              | None \<Rightarrow> (acc, None))))"

text \<open>The loop, and after it \<open>if (currentLocation) result.locations.push(currentLocation)\<close>.\<close>

definition parse_locations :: "jstr list \<Rightarrow> location list" where
  "parse_locations ls =
     (case foldl location_line ([], None) ls of
        (acc, currentLocation) \<Rightarrow>
          (case currentLocation of Some c \<Rightarrow> acc @ [c] | None \<Rightarrow> acc))"

subsection \<open>The timeline section\<close>

definition is_table_row :: "jstr \<Rightarrow> bool" where
  "is_table_row line \<longleftrightarrow> starts_with (trim line) [bar]"

definition timeline_line ::
  "timeline_entry list \<times> bool \<Rightarrow> jstr \<Rightarrow> timeline_entry list \<times> bool" where
  "timeline_line st line =
     (case st of (acc, tableStarted) \<Rightarrow>
        if is_table_row line \<and> js_includes line s_year_col then (acc, True)
        else if tableStarted \<and> is_table_row line \<and> \<not> js_includes line [minus, minus, minus]
        then (let parts = filter (\<lambda>s. s \<noteq> []) (map trim (split_on bar line))
              in if length parts \<ge> 3
                 then (acc @ [\<lparr>year = parts ! 0, age = parts ! 1, event = parts ! 2\<rparr>],
                       tableStarted)
                 else (acc, tableStarted))
        else (acc, tableStarted))"

subsection \<open>parseMarkdown\<close>

definition parseMarkdown :: "jstr \<Rightarrow> parse_result" where
  "parseMarkdown markdown =
     (if markdown = [] then empty_result
      else
        let profileSection = extractSection markdown profile_header;
            (p, intro_text) =
              (if profileSection \<noteq> []
               then (case foldl profile_line (Map.empty, [], False) (split_on nl profileSection)
                     of (p, i, _) \<Rightarrow> (p, i))
               else (Map.empty, []));
            locationSection = extractSection markdown location_header;
            locs = (if locationSection \<noteq> []
                    then parse_locations (split_on nl locationSection) else []);
            timelineSection = extractSection markdown timeline_header;
            entries = (if timelineSection \<noteq> []
                       then fst (foldl timeline_line ([], False) (split_on nl timelineSection))
                       else [])
        in \<lparr>person = p, locations = locs, timeline = entries, intro = intro_text\<rparr>)"

section \<open>The geocoder (geocodeCity)\<close>

subsection \<open>Values\<close>

text \<open>
  A JavaScript number: \<open>Num v\<close> stands for the double nearest to \<open>v\<close>. The other three
  values are the ones that are not finite.
\<close>

datatype jsnum = NaN | PosInf | NegInf | Num real

text \<open>
  The values that flow through the caches: what \<open>JSON.parse\<close> can give, and the object
  \<open>{ lat, lng }\<close> that a lookup builds.
\<close>

datatype json =
    JNull
  | JBool bool
  | JNum jsnum
  | JStr jstr
  | JArr "json list"
  | JObj "(string \<times> json) list"

text \<open>\<open>if (coords)\<close>\<close>

fun truthy :: "json \<Rightarrow> bool" where
  "truthy JNull = False"
| "truthy (JBool b) = b"
| "truthy (JNum n) = (case n of NaN \<Rightarrow> False | Num v \<Rightarrow> v \<noteq> 0 | _ \<Rightarrow> True)"
| "truthy (JStr s) = (s \<noteq> [])"
| "truthy (JArr xs) = True"
| "truthy (JObj kvs) = True"

subsection \<open>parseFloat\<close>

text \<open>
  \<open>parseFloat\<close> on a string: leading white space is skipped, then the longest prefix that
  is a decimal literal (sign, \<open>Infinity\<close> or digits with an optional fraction and an
  optional exponent) is read; without such a prefix the result is \<open>NaN\<close>. A value at or
  beyond \<open>2^1024 - 2^970\<close> rounds to an infinity.
\<close>

definition is_digit :: "jchar \<Rightarrow> bool" where
  "is_digit c \<longleftrightarrow> 0x30 \<le> c \<and> c \<le> 0x39"

definition digits_value :: "jstr \<Rightarrow> nat" where
  "digits_value ds = foldl (\<lambda>a c. 10 * a + (unat c - 48)) 0 ds"

definition read_sign :: "jstr \<Rightarrow> bool \<times> jstr" where
  "read_sign t =
     (case t of
        [] \<Rightarrow> (False, t)
      | c # r \<Rightarrow> if c = 0x2D then (True, r) else if c = 0x2B then (False, r) else (False, t))"

definition read_exponent :: "jstr \<Rightarrow> int" where
  "read_exponent r =
     (case r of
        [] \<Rightarrow> 0
      | c # r' \<Rightarrow>
          if c = 0x65 \<or> c = 0x45
          then (case read_sign r' of
                  (neg, r'') \<Rightarrow>
                    let ds = takeWhile is_digit r''
                    in if ds = [] then 0
                       else if neg then - int (digits_value ds) else int (digits_value ds))
          else 0)"

definition scale :: "real \<Rightarrow> int \<Rightarrow> real" where
  "scale m e = (if 0 \<le> e then m * 10 ^ nat e else m / 10 ^ nat (- e))"

definition round_double :: "bool \<Rightarrow> real \<Rightarrow> jsnum" where
  "round_double neg v =
     (if v \<ge> 2 ^ 1024 - 2 ^ 970 then (if neg then NegInf else PosInf)
      else Num (if neg then - v else v))"

definition parseFloat :: "jstr \<Rightarrow> jsnum" where
  "parseFloat s =
     (case read_sign (dropWhile is_ws s) of
        (neg, t) \<Rightarrow>
          if starts_with t [0x49, 0x6E, 0x66, 0x69, 0x6E, 0x69, 0x74, 0x79]
          then (if neg then NegInf else PosInf)
          else
            let ip = takeWhile is_digit t;
                r1 = dropWhile is_digit t;
                (fp, r2) = (case r1 of
                              [] \<Rightarrow> ([], r1)
                            | c # r \<Rightarrow> if c = 0x2E
                                       then (takeWhile is_digit r, dropWhile is_digit r)
                                       else ([], r1))
            in if ip = [] \<and> fp = [] then NaN
               else round_double neg
                      (scale (real (digits_value (ip @ fp)) / 10 ^ length fp)
                             (read_exponent r2)))"

subsection \<open>The caches, the provider and the effects\<close>

text \<open>
  What the provider answers to one request: \<open>fetch\<close> rejects, the status is not a
  success, the body is not JSON, or the body is the array of matches, each with the string
  fields \<open>lat\<close> and \<open>lon\<close>.
\<close>

record match =
  lat :: jstr
  lon :: jstr

datatype response = NetworkError | StatusNotOk | BodyNotJson | Matches "match list"

text \<open>
  Every effect of a call is appended to a log: the operations on the in-memory map
  \<open>GEOCODE_CACHE\<close>, on \<open>localStorage\<close>, the request to the provider (by the name asked
  for) and the pause after a successful lookup (in milliseconds). The operations of
  \<open>localStorage\<close> are taken not to throw, and \<open>console.error\<close> has no effect on the
  state.
\<close>

datatype event =
    CacheHas jstr
  | CacheGet jstr
  | CacheSet jstr json
  | StorageGet jstr
  | StorageRemove jstr
  | StorageSet jstr jstr
  | Fetch jstr
  | Delay nat

record geo_state =
  cache :: "jstr \<rightharpoonup> json"
  storage :: "jstr \<rightharpoonup> jstr"
  log :: "event list"

text \<open>
  The world outside: \<open>net k q\<close> is the answer to the request for \<open>q\<close> when \<open>k\<close> requests
  were made before it; \<open>JSON.parse\<close> (\<open>None\<close> when it throws) and \<open>JSON.stringify\<close> are
  taken as given.
\<close>

record env =
  net :: "nat \<Rightarrow> jstr \<Rightarrow> response"
  json_parse :: "jstr \<Rightarrow> json option"
  json_stringify :: "json \<Rightarrow> jstr"

datatype error = URIError

datatype name_arg = Undefined | Null | Str jstr

definition emit :: "event \<Rightarrow> geo_state \<Rightarrow> geo_state" where
  "emit e s = s\<lparr>log := log s @ [e]\<rparr>"

fun is_fetch :: "event \<Rightarrow> bool" where
  "is_fetch (Fetch q) = True"
| "is_fetch _ = False"

definition fetches :: "geo_state \<Rightarrow> nat" where
  "fetches s = length (filter is_fetch (log s))"

text \<open>\<open>`geocode_${name}`\<close>\<close>

definition cache_key :: "jstr \<Rightarrow> jstr" where
  "cache_key nm = [0x67, 0x65, 0x6F, 0x63, 0x6F, 0x64, 0x65, 0x5F] @ nm"

text \<open>
  \<open>encodeURIComponent\<close> throws a \<open>URIError\<close> on a string that is not well-formed UTF-16:
  one with a surrogate that is not half of a pair.
\<close>

fun well_formed :: "jstr \<Rightarrow> bool" where
  "well_formed [] = True"
| "well_formed [c] = (\<not> (0xD800 \<le> c \<and> c \<le> 0xDFFF))"
| "well_formed (c # d # r) =
     (if 0xD800 \<le> c \<and> c \<le> 0xDBFF then 0xDC00 \<le> d \<and> d \<le> 0xDFFF \<and> well_formed r
      else if 0xDC00 \<le> c \<and> c \<le> 0xDFFF then False
      else well_formed (d # r))"

subsection \<open>geocodeCity\<close>

text \<open>
  Lines 9 to 19: the durable store. A stored string that parses is put into the in-memory
  map and returned; one that does not parse is removed.
\<close>

definition from_storage :: "env \<Rightarrow> jstr \<Rightarrow> geo_state \<Rightarrow> json option \<times> geo_state" where
  "from_storage e nm s =
     (let cacheKey = cache_key nm;
          s = emit (StorageGet cacheKey) s
      in case storage s cacheKey of
           None \<Rightarrow> (None, s)
         | Some stored \<Rightarrow>
             if stored = [] then (None, s)
             else (case json_parse e stored of
                     Some parsed \<Rightarrow>
                       (Some parsed,
                        emit (CacheSet nm parsed) (s\<lparr>cache := (cache s)(nm \<mapsto> parsed)\<rparr>))
                   | None \<Rightarrow>
                       (None,
                        emit (StorageRemove cacheKey)
                          (s\<lparr>storage := (storage s)(cacheKey := None)\<rparr>))))"

text \<open>
  Lines 21 to 51: the request. The address is built before the \<open>try\<close> block, so the
  \<open>URIError\<close> of \<open>encodeURIComponent\<close> reaches the caller; everything inside the block
  that fails gives \<open>null\<close>.
\<close>

definition from_network :: "env \<Rightarrow> jstr \<Rightarrow> geo_state \<Rightarrow> (error + json) \<times> geo_state" where
  "from_network e nm s =
     (if \<not> well_formed nm then (Inl URIError, s)
      else
        let resp = net e (fetches s) nm;
            s = emit (Fetch nm) s
        in case resp of
             NetworkError \<Rightarrow> (Inr JNull, s)
           | StatusNotOk \<Rightarrow> (Inr JNull, s)
           | BodyNotJson \<Rightarrow> (Inr JNull, s)
           | Matches data \<Rightarrow>
               (case data of
                  [] \<Rightarrow> (Inr JNull, s)
                | m # _ \<Rightarrow>
                    let result = JObj [(''lat'', JNum (parseFloat (lat m))),
                                       (''lng'', JNum (parseFloat (lon m)))];
                        s = emit (CacheSet nm result) (s\<lparr>cache := (cache s)(nm \<mapsto> result)\<rparr>);
                        s = emit (StorageSet (cache_key nm) (json_stringify e result))
                              (s\<lparr>storage := (storage s)(cache_key nm \<mapsto> json_stringify e result)\<rparr>);
                        s = emit (Delay 1000) s
                    in (Inr result, s)))"

definition geocodeCity :: "env \<Rightarrow> name_arg \<Rightarrow> geo_state \<Rightarrow> (error + json) \<times> geo_state" where
  "geocodeCity e arg s =
     (case arg of
        Undefined \<Rightarrow> (Inr JNull, s)
      | Null \<Rightarrow> (Inr JNull, s)
      | Str nm \<Rightarrow>
          if nm = [] then (Inr JNull, s)
          else
            let s = emit (CacheHas nm) s
            in (case cache s nm of
                  Some v \<Rightarrow> (Inr v, emit (CacheGet nm) s)
                | None \<Rightarrow>
                    (case from_storage e nm s of
                       (Some parsed, s) \<Rightarrow> (Inr parsed, s)
                     | (None, s) \<Rightarrow> from_network e nm s)))"

section \<open>StoryMap.jsx (handleGenerate)\<close>

subsection \<open>The query of a location\<close>

text \<open>\<open>/\<dots>([^\<dots>)]+)/\<close> after the marker U+4ECA: the run up to a closing parenthesis\<close>

definition is_close :: "jchar \<Rightarrow> bool" where
  "is_close c \<longleftrightarrow> c = fw_rparen \<or> c = rparen"

definition is_open :: "jchar \<Rightarrow> bool" where
  "is_open c \<longleftrightarrow> c = fw_lparen \<or> c = lparen"

definition not_close_plus :: "jstr \<Rightarrow> jstr option" where
  "not_close_plus r =
     (let m = takeWhile (\<lambda>c. \<not> is_close c) r in if m = [] then None else Some m)"

definition modern_name :: "jstr \<Rightarrow> jstr option" where
  "modern_name s = search (lit [jin] not_close_plus) s"

text \<open>\<open>.*?\<close>, lazy: as few code units as the continuation allows, none a line terminator\<close>

fun dot_star_lazy :: "(jstr \<Rightarrow> 'a option) \<Rightarrow> jstr \<Rightarrow> 'a option" where
  "dot_star_lazy k [] = k []"
| "dot_star_lazy k (c # r) =
     (case k (c # r) of
        Some m \<Rightarrow> Some m
      | None \<Rightarrow> if is_lt c then None else dot_star_lazy k r)"

text \<open>One match of \<open>/[\<dots>(].*?[\<dots>)]/\<close> at the start of the input: what follows the match.\<close>

definition paren_match :: "jstr \<Rightarrow> jstr option" where
  "paren_match s = one_of is_open (dot_star_lazy (one_of is_close rest)) s"

text \<open>
  \<open>replace(/[\<dots>(].*?[\<dots>)]/g, "")\<close>: every match removed, from the left. A match
  starts at an opening parenthesis after which a closing one comes before any line
  terminator, and ends at the first closing parenthesis; \<open>inside\<close> says that the scan is
  within a match.
\<close>

fun strip_parens_from :: "bool \<Rightarrow> jstr \<Rightarrow> jstr" where
  "strip_parens_from inside [] = []"
| "strip_parens_from inside (c # s) =
     (if inside then (if is_close c then strip_parens_from False s else strip_parens_from True s)
      else if paren_match (c # s) \<noteq> None then strip_parens_from True s
      else c # strip_parens_from False s)"

definition strip_parens :: "jstr \<Rightarrow> jstr" where
  "strip_parens s = strip_parens_from False s"

text \<open>Lines 187 to 196: \<open>geoName\<close>.\<close>

definition geoName :: "location \<Rightarrow> jstr" where
  "geoName loc =
     (let queryName = (case locationDesc loc of
                         Some d \<Rightarrow> if d \<noteq> [] then d else name loc
                       | None \<Rightarrow> name loc);
          g = (if js_includes queryName [jin]
               then (case modern_name queryName of Some m \<Rightarrow> m | None \<Rightarrow> queryName)
               else queryName);
          g = trim (strip_parens g)
      in if g = [] then name loc else g)"

subsection \<open>The loop over the locations\<close>

text \<open>
  An element of \<open>geocodedLocations\<close> is \<open>{ ...loc, ...coords }\<close>: the pair of the record
  and of the value whose properties are spread over it.
\<close>

type_synonym resolved = "location \<times> json"

text \<open>
  Lines 187 to 207, the body of the loop: the value to spread over the record (\<open>None\<close>
  when nothing is pushed), or the exception of \<open>geocodeCity\<close>. The second request, with
  the bare name, is made only when the first gave a falsy value and the name differs from
  the query.
\<close>

definition locate :: "env \<Rightarrow> location \<Rightarrow> geo_state \<Rightarrow> (error + json option) \<times> geo_state" where
  "locate e loc s =
     (case geocodeCity e (Str (geoName loc)) s of
        (Inl err, s1) \<Rightarrow> (Inl err, s1)
      | (Inr coords, s1) \<Rightarrow>
          if truthy coords then (Inr (Some coords), s1)
          else if geoName loc \<noteq> name loc
          then (case geocodeCity e (Str (name loc)) s1 of
                  (Inl err, s2) \<Rightarrow> (Inl err, s2)
                | (Inr coords2, s2) \<Rightarrow>
                    if truthy coords2 then (Inr (Some coords2), s2) else (Inr None, s2))
          else (Inr None, s1))"

text \<open>
  Lines 186 to 208, the loop. An exception leaves it (it is caught at the end of
  \<open>handleGenerate\<close>).
\<close>

fun geocode_loop ::
  "env \<Rightarrow> location list \<Rightarrow> resolved list \<Rightarrow> geo_state \<Rightarrow> (error + resolved list) \<times> geo_state"
where
  "geocode_loop e [] geocodedLocations s = (Inr geocodedLocations, s)"
| "geocode_loop e (loc # locs) geocodedLocations s =
     (case locate e loc s of
        (Inl err, s1) \<Rightarrow> (Inl err, s1)
      | (Inr (Some coords), s1) \<Rightarrow> geocode_loop e locs (geocodedLocations @ [(loc, coords)]) s1
      | (Inr None, s1) \<Rightarrow> geocode_loop e locs geocodedLocations s1)"

text \<open>
  \<open>handleGenerate\<close> from the parsing of the markdown on (steps 3 and 4): the message that
  ends the run.
\<close>

datatype message =
    NoLocations
  | NoCoordinates
  | MapMessage "resolved list" jstr
  | ErrorMessage error

definition handleGenerate :: "env \<Rightarrow> jstr \<Rightarrow> geo_state \<Rightarrow> message \<times> geo_state" where
  "handleGenerate e markdown s =
     (let data = parseMarkdown markdown
      in if locations data = [] then (NoLocations, s)
         else (case geocode_loop e (locations data) [] s of
                 (Inl err, s') \<Rightarrow> (ErrorMessage err, s')
               | (Inr geocodedLocations, s') \<Rightarrow>
                   if geocodedLocations = [] then (NoCoordinates, s')
                   else (MapMessage geocodedLocations (intro data), s')))"

section \<open>Notions used to state the properties\<close>

text \<open>The lines that \<open>parseMarkdown\<close> reads as the location section of a document.\<close>

definition location_section :: "jstr \<Rightarrow> jstr list" where
  "location_section markdown = section_lines location_header False (split_on nl markdown)"

text \<open>\<open>currentLocation\<close> as the list of the records that are open: none or one.\<close>

fun open_record :: "location option \<Rightarrow> location list" where
  "open_record None = []"
| "open_record (Some c) = [c]"

text \<open>
  The text after the marker U+4ECA, said without a pattern: at the first marker that is
  followed by a code unit other than a closing parenthesis, the run up to the next
  closing parenthesis.
\<close>

fun after_marker :: "jstr \<Rightarrow> jstr option" where
  "after_marker [] = None"
| "after_marker (c # s) =
     (if c = jin \<and> s \<noteq> [] \<and> \<not> is_close (hd s) then Some (takeWhile (\<lambda>d. \<not> is_close d) s)
      else after_marker s)"

text \<open>
  Parenthesized content: an opening parenthesis, of either width, that is followed on its
  line by a closing one. \<open>closes s\<close> says that a closing parenthesis comes in \<open>s\<close> before
  any line terminator.
\<close>

fun closes :: "jstr \<Rightarrow> bool" where
  "closes [] = False"
| "closes (c # s) = (is_close c \<or> (\<not> is_lt c \<and> closes s))"

fun has_paren_span :: "jstr \<Rightarrow> bool" where
  "has_paren_span [] = False"
| "has_paren_span (c # s) = ((is_open c \<and> closes s) \<or> has_paren_span s)"

text \<open>A record whose name and location description carry no white space at their ends.\<close>

definition clean :: "location \<Rightarrow> bool" where
  "clean loc \<longleftrightarrow>
     trim (name loc) = name loc \<and>
     (case locationDesc loc of None \<Rightarrow> True | Some d \<Rightarrow> trim d = d \<and> d \<noteq> [])"

text \<open>
  The four answers of the provider that are failures: a network error, a status that is
  not a success, a body that is not JSON, an empty array of matches.
\<close>

definition failed_response :: "response \<Rightarrow> bool" where
  "failed_response r \<longleftrightarrow>
     r = NetworkError \<or> r = StatusNotOk \<or> r = BodyNotJson \<or> r = Matches []"

text \<open>The effects of a call that leads from \<open>s\<close> to \<open>s'\<close>.\<close>

definition new_events :: "geo_state \<Rightarrow> geo_state \<Rightarrow> event list" where
  "new_events s s' = drop (length (log s)) (log s')"

text \<open>A number that is finite and at most \<open>b\<close> in absolute value.\<close>

fun in_range :: "real \<Rightarrow> jsnum \<Rightarrow> bool" where
  "in_range b (Num v) = (- b \<le> v \<and> v \<le> b)"
| "in_range b _ = False"

text \<open>
  Concrete surroundings for the examples: both caches empty; a durable store with an
  entry for U+897F U+5B89 that is not JSON; a provider without any match; a provider
  whose first match has the latitude \<open>999\<close>.
\<close>

definition empty_state :: geo_state where
  "empty_state = \<lparr>cache = Map.empty, storage = Map.empty, log = []\<rparr>"

definition stale_state :: geo_state where
  "stale_state =
     \<lparr>cache = Map.empty, storage = [cache_key [0x897F, 0x5B89] \<mapsto> [0x7B]], log = []\<rparr>"

definition no_match_env :: env where
  "no_match_env = \<lparr>net = (\<lambda>k q. Matches []), json_parse = (\<lambda>stored. None),
                    json_stringify = (\<lambda>v. [])\<rparr>"

definition far_env :: env where
  "far_env = \<lparr>net = (\<lambda>k q. Matches [\<lparr>lat = [0x39, 0x39, 0x39], lon = [0x30]\<rparr>]),
               json_parse = (\<lambda>stored. None), json_stringify = (\<lambda>v. [])\<rparr>"



text \<open>
  An example run: a provider that knows one city only (U+6D1B U+9633, at latitude 34 and
  longitude 112), and the two records of a location section whose second header starts
  with the emoji U+1F7E2.
\<close>

definition luoyang_env :: env where
  "luoyang_env =
     \<lparr>net = (\<lambda>k q. if q = [0x6D1B, 0x9633]
                     then Matches [\<lparr>lat = [0x33, 0x34], lon = [0x31, 0x31, 0x32]\<rparr>]
                     else Matches []),
      json_parse = (\<lambda>stored. None), json_stringify = (\<lambda>v. [])\<rparr>"

definition luoyang_record :: location where
  "luoyang_record =
     \<lparr>name = [0x6D1B, 0x9633], type = Normal, time = [], desc = [], significance = [],
      quotes = [], locationDesc = None\<rparr>"

definition changan_record :: "jstr \<Rightarrow> location" where
  "changan_record header_name =
     \<lparr>name = header_name, type = Birth, time = [], desc = [], significance = [],
      quotes = [], locationDesc = Some [0x957F, 0x5B89, 0x57CE]\<rparr>"

section \<open>Properties of the extractor\<close>

subsection \<open>Lines and sections\<close>

lemma split_where_not_Nil: "split_where P s \<noteq> []"
  by (induction s) (auto split: list.splits)

lemma split_where_no_sep: "\<forall>l\<in>set (split_where P s). \<forall>c\<in>set l. \<not> P c"
  by (induction s) (auto split: if_splits list.splits)

lemma split_where_piece: "\<forall>c\<in>set l. \<not> P c \<Longrightarrow> split_where P l = [l]"
  by (induction l) auto

lemma split_where_append:
  "\<forall>c\<in>set l. \<not> P c \<Longrightarrow> P x \<Longrightarrow> split_where P (l @ x # r) = l # split_where P r"
  by (induction l) auto

lemma split_join:
  "ls \<noteq> [] \<Longrightarrow> \<forall>l\<in>set ls. nl \<notin> set l \<Longrightarrow> split_on nl (join_nl ls) = ls"
proof (induction ls rule: join_nl.induct)
  case 1
  then show ?case by simp
next
  case (2 l)
  then have "\<forall>c\<in>set l. \<not> c = nl" by auto
  then show ?case by (simp add: split_on_def split_where_piece)
next
  case (3 l l' ls)
  then have "\<forall>c\<in>set l. \<not> c = nl" by auto
  with 3 show ?case by (simp add: split_on_def split_where_append)
qed

lemma join_nl_Nil_iff: "join_nl ls = [] \<longleftrightarrow> ls = [] \<or> ls = [[]]"
  by (induction ls rule: join_nl.induct) auto

lemma section_lines_subset: "set (section_lines hp b ls) \<subseteq> set ls"
  by (induction ls arbitrary: b) auto

lemma split_on_nl_free: "l \<in> set (split_on nl s) \<Longrightarrow> nl \<notin> set l"
  using split_where_no_sep [of "\<lambda>c. c = nl" s] by (auto simp: split_on_def)

lemma extractSection_lines:
  assumes "extractSection md hp \<noteq> []"
  shows "split_on nl (extractSection md hp) = section_lines hp False (split_on nl md)"
proof -
  let ?ls = "section_lines hp False (split_on nl md)"
  from assms have "?ls \<noteq> []" by (auto simp: extractSection_def)
  moreover have "\<forall>l\<in>set ?ls. nl \<notin> set l"
    using section_lines_subset [of hp False "split_on nl md"] split_on_nl_free by blast
  ultimately show ?thesis unfolding extractSection_def by (rule split_join)
qed

lemma section_lines_none:
  "\<forall>line\<in>set ls. \<not> (is_h2 line \<and> hp line) \<Longrightarrow> section_lines hp False ls = []"
  by (induction ls) auto

lemma extractSection_none:
  "\<forall>line\<in>set (split_on nl md). \<not> (is_h2 line \<and> hp line) \<Longrightarrow> extractSection md hp = []"
  by (simp add: extractSection_def section_lines_none)

text \<open>
  Claim C2. \<open>parseMarkdown\<close> is a total function without any exception branch: no
  operation of it can throw on a string. When no line of the input is a second-level
  header that one of the three section patterns recognises, the result is the initial
  one: \<open>person\<close> without any property, no location, no timeline entry (and an empty
  introduction).
\<close>

theorem parseMarkdown_without_sections:
  assumes "\<forall>line\<in>set (split_on nl markdown).
             \<not> (is_h2 line \<and> (profile_header line \<or> location_header line \<or> timeline_header line))"
  shows "parseMarkdown markdown = empty_result"
proof -
  have "extractSection markdown profile_header = []"
    using assms by (intro extractSection_none) blast
  moreover have "extractSection markdown location_header = []"
    using assms by (intro extractSection_none) blast
  moreover have "extractSection markdown timeline_header = []"
    using assms by (intro extractSection_none) blast
  ultimately show ?thesis by (simp add: parseMarkdown_def empty_result_def)
qed


text \<open>The string constants, for evaluation.\<close>

lemmas str_defs = s_profile_def s_basic_info_def s_journey_def s_important_def s_timeline_def
  s_overview_def s_year_col_def k_name_def k_era_def k_dynasty_def k_birth_def k_death_def
  k_age_def k_roles_def s_birthplace_def s_deathplace_def kp_time_def kp_event_def
  kp_significance_def kp_quotes_def kp_location_def bold_def

theorem parseMarkdown_without_sections_witness:
  "parseMarkdown [0x23, 0x23, 0x20, 0x78, 0xA, 0x61, 0x62] = empty_result"
proof -
  have h: "\<forall>line\<in>set (split_on nl [0x23, 0x23, 0x20, 0x78, 0xA, 0x61, 0x62]).
      \<not> (is_h2 line \<and> (profile_header line \<or> location_header line \<or> timeline_header line))"
    by (simp add: split_on_def profile_header_def location_header_def timeline_header_def
        starts_with_def str_defs)
  from parseMarkdown_without_sections [OF h] show ?thesis .
qed


subsection \<open>The records of the location section\<close>

lemma header_match_Nil: "header_match [] = None"
  by (simp add: header_match_def lit_def starts_with_def)

lemma type_read_fields: "type (read_fields c line) = type c"
  by (simp add: read_fields_def Let_def split: option.splits)

lemma location_loop_types:
  "foldl location_line (acc, cur) ls = (acc', cur') \<Longrightarrow>
   map type (acc' @ open_record cur') =
   map type (acc @ open_record cur) @ map (\<lambda>h. type (new_location h)) (List.map_filter header_match ls)"
proof (induction ls arbitrary: acc cur)
  case Nil
  then show ?case by (simp add: List.map_filter_simps)
next
  case (Cons l ls)
  obtain a c where st: "location_line (acc, cur) l = (a, c)" by force
  with Cons.prems have "foldl location_line (a, c) ls = (acc', cur')" by simp
  from Cons.IH [OF this] have ih: "map type (acc' @ open_record cur') =
     map type (a @ open_record c) @ map (\<lambda>h. type (new_location h)) (List.map_filter header_match ls)" .
  have "map type (a @ open_record c) @ map (\<lambda>h. type (new_location h)) (List.map_filter header_match ls)
      = map type (acc @ open_record cur) @ map (\<lambda>h. type (new_location h)) (List.map_filter header_match (l # ls))"
    using st by (cases "header_match l"; cases cur)
      (auto simp: location_line_def List.map_filter_simps type_read_fields)
  with ih show ?case by simp
qed

lemma parse_locations_types:
  "map type (parse_locations ls) = map (\<lambda>h. type (new_location h)) (List.map_filter header_match ls)"
proof -
  obtain a c where st: "foldl location_line ([], None) ls = (a, c)" by force
  from location_loop_types [OF this] have
    "map type (a @ open_record c) = map (\<lambda>h. type (new_location h)) (List.map_filter header_match ls)"
    by simp
  moreover have "parse_locations ls = a @ open_record c"
    using st by (cases c) (simp_all add: parse_locations_def)
  ultimately show ?thesis by simp
qed

lemma map_filter_length: "length (List.map_filter f xs) = length (filter (\<lambda>x. f x \<noteq> None) xs)"
  by (induction xs) (auto simp: List.map_filter_simps split: option.splits)


lemma starts_with_iff: "starts_with s m \<longleftrightarrow> (\<exists>q. s = m @ q)"
  unfolding starts_with_def by (metis append_eq_conv_conj append_take_drop_id)

lemma includes_iff: "js_includes s m \<longleftrightarrow> (\<exists>p q. s = p @ m @ q)"
proof (induction s)
  case Nil
  then show ?case by auto
next
  case (Cons c s)
  show ?case
  proof
    assume "js_includes (c # s) m"
    then consider "starts_with (c # s) m" | "js_includes s m" by auto
    then show "\<exists>p q. c # s = p @ m @ q"
    proof cases
      case 1
      then obtain q where "c # s = m @ q" by (auto simp: starts_with_iff)
      then have "c # s = [] @ m @ q" by simp
      then show ?thesis by blast
    next
      case 2
      with Cons.IH obtain p q where "s = p @ m @ q" by auto
      then have "c # s = (c # p) @ m @ q" by simp
      then show ?thesis by blast
    qed
  next
    assume "\<exists>p q. c # s = p @ m @ q"
    then obtain p q where pq: "c # s = p @ m @ q" by auto
    show "js_includes (c # s) m"
    proof (cases p)
      case Nil
      with pq have "starts_with (c # s) m" by (auto simp: starts_with_iff)
      then show ?thesis by simp
    next
      case (Cons a p')
      with pq have "s = p' @ m @ q" by simp
      with Cons.IH have "js_includes s m" by blast
      then show ?thesis by simp
    qed
  qed
qed

lemma includes_rev: "js_includes (rev s) (rev m) = js_includes s m"
proof -
  have "(\<exists>p q. rev s = p @ rev m @ q) \<longleftrightarrow> (\<exists>p q. s = p @ m @ q)"
  proof
    assume "\<exists>p q. rev s = p @ rev m @ q"
    then obtain p q where "rev s = p @ rev m @ q" by auto
    then have "rev (rev s) = rev (p @ rev m @ q)" by simp
    then have "s = rev q @ m @ rev p" by simp
    then show "\<exists>p q. s = p @ m @ q" by blast
  next
    assume "\<exists>p q. s = p @ m @ q"
    then obtain p q where "s = p @ m @ q" by auto
    then have "rev s = rev q @ rev m @ rev p" by simp
    then show "\<exists>p q. rev s = p @ rev m @ q" by blast
  qed
  then show ?thesis by (simp add: includes_iff)
qed

lemma includes_dropWhile:
  "m \<noteq> [] \<Longrightarrow> \<not> is_ws (hd m) \<Longrightarrow> js_includes (dropWhile is_ws s) m = js_includes s m"
proof (induction s)
  case Nil
  then show ?case by simp
next
  case (Cons c s)
  show ?case
  proof (cases "is_ws c")
    case True
    with Cons.prems have "\<not> starts_with (c # s) m"
      by (cases m) (auto simp: starts_with_def)
    with True Cons show ?thesis by simp
  next
    case False
    then show ?thesis by simp
  qed
qed

lemma includes_trim:
  assumes "m \<noteq> []" "\<not> is_ws (hd m)" "\<not> is_ws (last m)"
  shows "js_includes (trim s) m = js_includes s m"
proof -
  have r: "rev m \<noteq> []" "\<not> is_ws (hd (rev m))"
    using assms by (simp_all add: hd_rev)
  have "js_includes (trim s) m = js_includes (dropWhile is_ws (rev (dropWhile is_ws s))) (rev m)"
    unfolding trim_def using includes_rev [of "dropWhile is_ws (rev (dropWhile is_ws s))" "rev m"]
    by simp
  also have "\<dots> = js_includes (rev (dropWhile is_ws s)) (rev m)"
    using r by (rule includes_dropWhile)
  also have "\<dots> = js_includes (dropWhile is_ws s) m" by (rule includes_rev)
  also have "\<dots> = js_includes s m" using assms(1,2) by (rule includes_dropWhile)
  finally show ?thesis .
qed

lemma includes_trim_birthplace: "js_includes (trim s) s_birthplace = js_includes s s_birthplace"
  by (rule includes_trim) (simp_all add: s_birthplace_def is_ws_def)

lemma includes_trim_deathplace: "js_includes (trim s) s_deathplace = js_includes s s_deathplace"
  by (rule includes_trim) (simp_all add: s_deathplace_def is_ws_def)

lemma type_new_location:
  "type (new_location h) =
     (if js_includes h s_birthplace then Birth
      else if js_includes h s_deathplace then Death else Normal)"
  by (simp add: new_location_def Let_def includes_trim_birthplace includes_trim_deathplace)

lemma parse_locations_blank: "parse_locations [] = []" "parse_locations [[]] = []"
  by (simp_all add: parse_locations_def location_line_def header_match_Nil)

lemma locations_parseMarkdown:
  "locations (parseMarkdown markdown) = parse_locations (location_section markdown)"
proof (cases "markdown = []")
  case True
  then show ?thesis
    by (simp add: parseMarkdown_def empty_result_def location_section_def split_on_def
        is_h2_def lit_def starts_with_def parse_locations_blank)
next
  case False
  show ?thesis
  proof (cases "extractSection markdown location_header = []")
    case True
    then have "location_section markdown = [] \<or> location_section markdown = [[]]"
      by (simp add: extractSection_def location_section_def join_nl_Nil_iff)
    with True False show ?thesis
      by (auto simp: parseMarkdown_def Let_def parse_locations_blank split: prod.splits)
  next
    case nonempty: False
    from extractSection_lines [OF this] False nonempty show ?thesis
      by (simp add: parseMarkdown_def Let_def location_section_def split: prod.splits)
  qed
qed

text \<open>
  Claim C3. The number of records that \<open>parseMarkdown\<close> returns is the number of lines
  of the location section that the header pattern matches: each header opens a record, and
  the record that is open when the section ends is appended like the others, also when no
  header follows it.
\<close>

theorem locations_count:
  "length (locations (parseMarkdown markdown)) =
   length (filter (\<lambda>line. header_match line \<noteq> None) (location_section markdown))"
proof -
  have "length (locations (parseMarkdown markdown)) =
        length (map type (parse_locations (location_section markdown)))"
    by (simp add: locations_parseMarkdown)
  also have "\<dots> = length (List.map_filter header_match (location_section markdown))"
    by (simp only: parse_locations_types length_map)
  finally show ?thesis by (simp add: map_filter_length)
qed

text \<open>
  Claim C8, as amended. The types of the records returned are, in order, those that the
  headers of the location section give: birth when the text captured from the header
  contains the birth-place marker, death when it contains the death-place marker (and not
  the other), normal otherwise. So a record is normal unless its header carries one of
  the two markers. Nothing is said of the name, which can be empty.
\<close>

theorem location_types:
  "map type (locations (parseMarkdown markdown)) =
   map (\<lambda>captured. if js_includes captured s_birthplace then Birth
                    else if js_includes captured s_deathplace then Death else Normal)
       (List.map_filter header_match (location_section markdown))"
  by (simp add: locations_parseMarkdown parse_locations_types type_new_location)


text \<open>
  Three headers in a row and nothing after them: three records.
\<close>

lemma locations_count_example:
  "length (locations (parseMarkdown [0x23, 0x23, 0x20, 0x4EBA, 0x751F, 0x5386, 0x7A0B, 0xA, 0x23, 0x23, 0x23, 0x20, 0x6D1B, 0x9633, 0xA, 0x23, 0x23, 0x23, 0x20, 0x957F, 0x5B89, 0xA, 0x23, 0x23, 0x23, 0x20, 0x897F, 0x5B89])) = 3"
  by code_simp

text \<open>
  Claim C8 as stated fails on the name: the location section whose only line is the
  header made of the birth-place marker and a full-width colon gives one record, a birth
  place with the empty name.
\<close>

theorem location_name_empty_counterexample:
  "locations (parseMarkdown [0x23, 0x23, 0x20, 0x4EBA, 0x751F, 0x5386, 0x7A0B, 0xA, 0x23, 0x23, 0x23, 0x20, 0x51FA, 0x751F, 0x5730, 0xFF1A]) =
     [\<lparr>name = [], type = Birth, time = [], desc = [], significance = [], quotes = [],
       locationDesc = None\<rparr>]"
  by code_simp

subsection \<open>The era of the profile\<close>

text \<open>
  Claim C4 fails on the code: \<open>extractField\<close> reads the value under either key of the
  pattern, but \<open>parseMarkdown\<close> calls it only on a line that contains the first key in
  bold. On a profile whose era line has the second key (U+671D U+4EE3), \<open>extractField\<close>
  alone gives the value, and \<open>person.era\<close> stays unset; with the first key it is set.
\<close>

theorem era_second_key_not_read:
  "extractField [0x2D, 0x20, 0x2A, 0x2A, 0x671D, 0x4EE3, 0x2A, 0x2A, 0xFF1A, 0x5510] (k_era @ [bar] @ k_dynasty) = Some [0x5510]
   \<and> person (parseMarkdown [0x23, 0x23, 0x20, 0x4EBA, 0x7269, 0x6863, 0x6848, 0xA, 0x2D, 0x20, 0x2A, 0x2A, 0x671D, 0x4EE3, 0x2A, 0x2A, 0xFF1A, 0x5510]) ''era'' = None
   \<and> person (parseMarkdown [0x23, 0x23, 0x20, 0x4EBA, 0x7269, 0x6863, 0x6848, 0xA, 0x2D, 0x20, 0x2A, 0x2A, 0x65F6, 0x4EE3, 0x2A, 0x2A, 0xFF1A, 0x5510]) ''era'' = Some (Some [0x5510])"
  by code_simp

section \<open>Properties of the geocoder\<close>

subsection \<open>Effects of a call\<close>

lemma fetches_emit [simp]: "fetches (emit ev s) = (if is_fetch ev then Suc (fetches s) else fetches s)"
  by (simp add: fetches_def emit_def)

lemma cache_emit [simp]: "cache (emit ev s) = cache s"
  by (simp add: emit_def)

lemma storage_emit [simp]: "storage (emit ev s) = storage s"
  by (simp add: emit_def)

lemma log_emit [simp]: "log (emit ev s) = log s @ [ev]"
  by (simp add: emit_def)

lemma fetches_upd [simp]:
  "fetches (s\<lparr>cache := c\<rparr>) = fetches s" "fetches (s\<lparr>storage := st\<rparr>) = fetches s"
  by (simp_all add: fetches_def)

text \<open>What a call adds to the log, case by case.\<close>

lemma from_storage_cases:
  assumes "from_storage e nm s = (r, s')"
  shows "fetches s' = fetches s \<and> (\<exists>evs. log s' = log s @ evs \<and> (\<forall>ev\<in>set evs. \<not> is_fetch ev)) \<and>
         (case r of
            Some v \<Rightarrow> cache s' = (cache s)(nm \<mapsto> v) \<and> storage s' = storage s
          | None \<Rightarrow> cache s' = cache s \<and>
              (storage s' = storage s \<or> storage s' = (storage s)(cache_key nm := None)))"
  using assms
  by (auto simp: from_storage_def Let_def split: option.splits if_splits)

lemma from_network_failed:
  assumes "from_network e nm s = (out, s')" "Fetch q \<in> set (new_events s s')"
    "failed_response (net e (fetches s) q)"
  shows "out = Inr JNull \<and> cache s' = cache s \<and> storage s' = storage s"
  using assms
  by (auto simp: from_network_def Let_def new_events_def failed_response_def
      split: if_splits response.splits list.splits)

lemma from_network_congr:
  assumes "cache a = cache b" "storage a = storage b" "fetches a = fetches b"
  shows "fst (from_network e nm a) = fst (from_network e nm b) \<and>
         cache (snd (from_network e nm a)) = cache (snd (from_network e nm b)) \<and>
         storage (snd (from_network e nm a)) = storage (snd (from_network e nm b))"
  using assms
  by (auto simp: from_network_def Let_def split: response.splits list.splits)

lemma from_network_log: "\<exists>evs. log (snd (from_network e nm s)) = log s @ evs"
  by (auto simp: from_network_def Let_def split: response.splits list.splits)

lemma from_network_value:
  assumes "from_network e nm s = (Inr c, s')" "Fetch q \<in> set (new_events s s')" "c \<noteq> JNull"
  shows "\<exists>m ms. net e (fetches s) q = Matches (m # ms) \<and>
           c = JObj [(''lat'', JNum (parseFloat (lat m))), (''lng'', JNum (parseFloat (lon m)))]"
  using assms
  by (auto simp: from_network_def Let_def new_events_def
      split: if_splits response.splits list.splits)

text \<open>A call that sends a request is a cache miss followed by \<open>from_network\<close>.\<close>

lemma geocodeCity_fetch:
  assumes "geocodeCity e arg s = (out, s')" "Fetch q \<in> set (new_events s s')"
  shows "\<exists>nm s1. from_network e nm s1 = (out, s') \<and> fetches s1 = fetches s \<and>
           Fetch q \<in> set (new_events s1 s') \<and> cache s1 = cache s \<and>
           (storage s1 = storage s \<or> storage s1 = (storage s)(cache_key nm := None))"
proof (cases arg)
  case Undefined
  with assms show ?thesis by (simp add: geocodeCity_def new_events_def)
next
  case Null
  with assms show ?thesis by (simp add: geocodeCity_def new_events_def)
next
  case (Str nm)
  show ?thesis
  proof (cases "nm = []")
    case True
    with Str assms show ?thesis by (simp add: geocodeCity_def new_events_def)
  next
    case False
    show ?thesis
    proof (cases "cache s nm")
      case (Some v)
      with Str False assms show ?thesis
        by (auto simp: geocodeCity_def Let_def new_events_def)
    next
      case None
      obtain r s1 where fs: "from_storage e nm (emit (CacheHas nm) s) = (r, s1)" by force
      from from_storage_cases [OF fs] obtain evs where
        f1: "fetches s1 = fetches s" and l1: "log s1 = log s @ [CacheHas nm] @ evs"
        and nf: "\<forall>ev\<in>set evs. \<not> is_fetch ev" by auto
      show ?thesis
      proof (cases r)
        case (Some v)
        with Str False None fs assms l1 nf show ?thesis
          by (auto simp: geocodeCity_def Let_def new_events_def)
      next
        case rNone: None
        with Str False None fs assms have fn: "from_network e nm s1 = (out, s')"
          by (simp add: geocodeCity_def Let_def)
        from from_network_log [of e nm s1] fn obtain evs' where
          l2: "log s' = log s1 @ evs'" by auto
        from assms(2) l1 l2 nf have "Fetch q \<in> set evs'"
          by (auto simp: new_events_def)
        with l2 have q: "Fetch q \<in> set (new_events s1 s')" by (simp add: new_events_def)
        moreover from from_storage_cases [OF fs] rNone
        have "cache s1 = cache s \<and>
            (storage s1 = storage s \<or> storage s1 = (storage s)(cache_key nm := None))"
          by simp
        ultimately show ?thesis using fn f1 by blast
      qed
    qed
  qed
qed

lemma geocodeCity_failed:
  assumes "geocodeCity e arg s = (out, s')" "Fetch q \<in> set (new_events s s')"
    "failed_response (net e (fetches s) q)"
  shows "out = Inr JNull \<and> cache s' = cache s \<and>
         (\<forall>k v. storage s' k = Some v \<longrightarrow> storage s k = Some v)"
proof -
  from geocodeCity_fetch [OF assms(1,2)] obtain nm s1 where
    fn: "from_network e nm s1 = (out, s')" and f1: "fetches s1 = fetches s"
    and q: "Fetch q \<in> set (new_events s1 s')" and c1: "cache s1 = cache s"
    and st: "storage s1 = storage s \<or> storage s1 = (storage s)(cache_key nm := None)"
    by blast
  from from_network_failed [OF fn q] assms(3) f1
  have "out = Inr JNull \<and> cache s' = cache s1 \<and> storage s' = storage s1" by simp
  with c1 st show ?thesis by (auto split: if_splits)
qed

lemma geocodeCity_malformed:
  assumes "nm \<noteq> []" "cache s nm = None" "storage s (cache_key nm) = Some stored"
    "stored \<noteq> []" "json_parse e stored = None"
  shows "\<exists>out1 s1 s0.
           geocodeCity e (Str nm) s = (out1, s1) \<and>
           geocodeCity e (Str nm) (s\<lparr>storage := (storage s)(cache_key nm := None)\<rparr>) = (out1, s0) \<and>
           cache s1 = cache s0 \<and> storage s1 = storage s0 \<and>
           StorageRemove (cache_key nm) \<in> set (new_events s s1)"
proof -
  let ?k = "cache_key nm"
  let ?a = "emit (StorageRemove ?k)
              ((emit (StorageGet ?k) (emit (CacheHas nm) s))\<lparr>storage := (storage s)(?k := None)\<rparr>)"
  let ?b = "emit (StorageGet ?k) (emit (CacheHas nm) (s\<lparr>storage := (storage s)(?k := None)\<rparr>))"
  have A: "geocodeCity e (Str nm) s = from_network e nm ?a"
    using assms by (simp add: geocodeCity_def from_storage_def Let_def)
  have B: "geocodeCity e (Str nm) (s\<lparr>storage := (storage s)(?k := None)\<rparr>) = from_network e nm ?b"
    using assms by (simp add: geocodeCity_def from_storage_def Let_def)
  have "cache ?a = cache ?b" "storage ?a = storage ?b" "fetches ?a = fetches ?b"
    by (simp_all add: fetches_def emit_def)
  from from_network_congr [OF this, of e nm]
  have C: "fst (from_network e nm ?a) = fst (from_network e nm ?b)"
    "cache (snd (from_network e nm ?a)) = cache (snd (from_network e nm ?b))"
    "storage (snd (from_network e nm ?a)) = storage (snd (from_network e nm ?b))" by auto
  from from_network_log [of e nm ?a] obtain evs where
    "log (snd (from_network e nm ?a)) = log ?a @ evs" by auto
  then have D: "StorageRemove ?k \<in> set (new_events s (snd (from_network e nm ?a)))"
    by (simp add: new_events_def emit_def)
  show ?thesis
    using A B C D by (metis prod.collapse)
qed

lemma geocodeCity_value:
  assumes "geocodeCity e arg s = (Inr c, s')" "Fetch q \<in> set (new_events s s')" "c \<noteq> JNull"
  shows "\<exists>m ms. net e (fetches s) q = Matches (m # ms) \<and>
           c = JObj [(''lat'', JNum (parseFloat (lat m))), (''lng'', JNum (parseFloat (lon m)))]"
proof -
  from geocodeCity_fetch [OF assms(1,2)] obtain nm s1 where
    "from_network e nm s1 = (Inr c, s')" "fetches s1 = fetches s"
    "Fetch q \<in> set (new_events s1 s')" by blast
  with from_network_value [of e nm s1 c s' q] assms(3) show ?thesis by simp
qed








text \<open>
  The loop, record by record: what is kept for a record is what \<open>geocodeCity\<close> returned
  in the turn of that record.
\<close>

lemma locate_kept:
  assumes "locate e loc s0 = (Inr (Some v), s1)"
  shows "truthy v \<and>
         (geocodeCity e (Str (geoName loc)) s0 = (Inr v, s1) \<or>
          (\<exists>v0 sm. geocodeCity e (Str (geoName loc)) s0 = (Inr v0, sm) \<and> \<not> truthy v0 \<and>
             geoName loc \<noteq> name loc \<and> geocodeCity e (Str (name loc)) sm = (Inr v, s1)))"
  using assms
  by (auto simp: locate_def split: prod.splits sum.splits if_splits)

lemma geocode_loop_extends:
  "geocode_loop e locs acc s = (Inr out, s') \<Longrightarrow> \<exists>kept. out = acc @ kept"
proof (induction locs arbitrary: acc s)
  case Nil
  then show ?case by simp
next
  case (Cons l locs)
  obtain r s1 where lo: "locate e l s = (r, s1)" by force
  show ?case
  proof (cases r)
    case (Inl err)
    with lo Cons.prems show ?thesis by simp
  next
    case (Inr v)
    show ?thesis
    proof (cases v)
      case None
      with Inr lo Cons.prems have "geocode_loop e locs acc s1 = (Inr out, s')" by simp
      from Cons.IH [OF this] show ?thesis .
    next
      case (Some c)
      with Inr lo Cons.prems have "geocode_loop e locs (acc @ [(l, c)]) s1 = (Inr out, s')"
        by simp
      from Cons.IH [OF this] show ?thesis by auto
    qed
  qed
qed

lemma geocode_loop_step:
  "geocode_loop e locs acc s = (Inr out, s'') \<Longrightarrow> out = acc @ kb @ (loc, v) # ka \<Longrightarrow>
   \<exists>pre post s0 s1.
      locs = pre @ loc # post \<and>
      geocode_loop e pre acc s = (Inr (acc @ kb), s0) \<and>
      locate e loc s0 = (Inr (Some v), s1) \<and>
      geocode_loop e post (acc @ kb @ [(loc, v)]) s1 = (Inr out, s'')"
proof (induction locs arbitrary: acc s kb)
  case Nil
  then show ?case by simp
next
  case (Cons l locs)
  obtain r s1 where lo: "locate e l s = (r, s1)" by force
  show ?case
  proof (cases r)
    case (Inl err)
    with lo Cons.prems show ?thesis by simp
  next
    case (Inr w)
    show ?thesis
    proof (cases w)
      case None
      with Inr lo Cons.prems have g: "geocode_loop e locs acc s1 = (Inr out, s'')" by simp
      from Cons.IH [OF g Cons.prems(2)] obtain pre post s0 s1' where
        p: "locs = pre @ loc # post" "geocode_loop e pre acc s1 = (Inr (acc @ kb), s0)"
        "locate e loc s0 = (Inr (Some v), s1')"
        "geocode_loop e post (acc @ kb @ [(loc, v)]) s1' = (Inr out, s'')" by blast
      have "l # locs = (l # pre) @ loc # post" using p(1) by simp
      moreover have "geocode_loop e (l # pre) acc s = (Inr (acc @ kb), s0)"
        using lo Inr None p(2) by simp
      ultimately show ?thesis using p(3,4) by blast
    next
      case (Some c)
      with Inr lo Cons.prems have g: "geocode_loop e locs (acc @ [(l, c)]) s1 = (Inr out, s'')"
        by simp
      from geocode_loop_extends [OF g] obtain kept where k: "out = (acc @ [(l, c)]) @ kept"
        by blast
      show ?thesis
      proof (cases kb)
        case Nil
        with k Cons.prems(2) have eq: "(loc, v) = (l, c)" by simp
        have "l # locs = [] @ loc # locs" using eq by simp
        moreover have "geocode_loop e [] acc s = (Inr (acc @ kb), s)" using Nil by simp
        moreover have "locate e loc s = (Inr (Some v), s1)" using lo Inr Some eq by simp
        moreover have "geocode_loop e locs (acc @ kb @ [(loc, v)]) s1 = (Inr out, s'')"
          using g Nil eq by simp
        ultimately show ?thesis by blast
      next
        case (Cons x kb')
        with k Cons.prems(2) have x: "x = (l, c)" by simp
        with Cons Cons.prems(2) have o: "out = (acc @ [(l, c)]) @ kb' @ (loc, v) # ka" by simp
        from Cons.IH [OF g o] obtain pre post s0 s1' where
          p: "locs = pre @ loc # post"
          "geocode_loop e pre (acc @ [(l, c)]) s1 = (Inr ((acc @ [(l, c)]) @ kb'), s0)"
          "locate e loc s0 = (Inr (Some v), s1')"
          "geocode_loop e post ((acc @ [(l, c)]) @ kb' @ [(loc, v)]) s1' = (Inr out, s'')"
          by blast
        have "l # locs = (l # pre) @ loc # post" using p(1) by simp
        moreover have "geocode_loop e (l # pre) acc s = (Inr (acc @ kb), s0)"
          using lo Inr Some p(2) Cons x by simp
        moreover have "geocode_loop e post (acc @ kb @ [(loc, v)]) s1' = (Inr out, s'')"
          using p(4) Cons x by simp
        ultimately show ?thesis using p(3) by blast
      qed
    qed
  qed
qed

lemma geocode_loop_provenance:
  assumes "geocode_loop e locs [] s = (Inr out, s'')" "out = kb @ (loc, v) # ka"
  shows "truthy v \<and>
     (\<exists>pre post s0 s1.
        locs = pre @ loc # post \<and>
        geocode_loop e pre [] s = (Inr kb, s0) \<and>
        (geocodeCity e (Str (geoName loc)) s0 = (Inr v, s1) \<or>
         (\<exists>v0 sm. geocodeCity e (Str (geoName loc)) s0 = (Inr v0, sm) \<and> \<not> truthy v0 \<and>
            geoName loc \<noteq> name loc \<and> geocodeCity e (Str (name loc)) sm = (Inr v, s1))) \<and>
        geocode_loop e post (kb @ [(loc, v)]) s1 = (Inr out, s''))"
proof -
  from assms(2) have "out = [] @ kb @ (loc, v) # ka" by simp
  from geocode_loop_step [OF assms(1) this] obtain pre post s0 s1 where
    p: "locs = pre @ loc # post" "geocode_loop e pre [] s = (Inr kb, s0)"
    "locate e loc s0 = (Inr (Some v), s1)"
    "geocode_loop e post (kb @ [(loc, v)]) s1 = (Inr out, s'')" by auto
  from locate_kept [OF p(3)] p(1,2,4) show ?thesis by blast
qed

text \<open>Definitions to unfold when a call is evaluated.\<close>

lemmas geo_defs = geocodeCity_def from_storage_def from_network_def emit_def fetches_def
  cache_key_def new_events_def failed_response_def

lemmas float_defs = parseFloat_def read_sign_def is_ws_def is_digit_def starts_with_def
  digits_value_def read_exponent_def scale_def round_double_def Let_def

subsection \<open>Falsy names\<close>

text \<open>
  Claim C10. For \<open>undefined\<close>, \<open>null\<close> and the empty string, \<open>geocodeCity\<close> returns
  \<open>null\<close> and leaves the state as it was: nothing is added to the log of effects, so
  neither cache is read or written and no request is sent.
\<close>

theorem geocodeCity_falsy:
  "geocodeCity e Undefined s = (Inr JNull, s) \<and>
   geocodeCity e Null s = (Inr JNull, s) \<and>
   geocodeCity e (Str []) s = (Inr JNull, s)"
  by (simp add: geocodeCity_def)

subsection \<open>Failures\<close>

text \<open>
  Claim C7. Whenever a call sends a request and the answer is one of the four failures,
  the call returns \<open>null\<close> (it does not throw), the in-memory map is unchanged and the
  durable store gets no entry. A durable entry that \<open>JSON.parse\<close> rejects is removed from
  the store, and the call goes on as on a miss: it gives the same result and leaves the
  same caches as the call without that entry.
\<close>

theorem resolver_failures:
  "(geocodeCity e arg s = (out, s') \<and> Fetch q \<in> set (new_events s s') \<and>
      failed_response (net e (fetches s) q)
    \<longrightarrow> out = Inr JNull \<and> cache s' = cache s \<and>
        (\<forall>k v. storage s' k = Some v \<longrightarrow> storage s k = Some v))
   \<and> (nm \<noteq> [] \<and> cache s nm = None \<and> storage s (cache_key nm) = Some stored \<and>
        stored \<noteq> [] \<and> json_parse e stored = None
    \<longrightarrow> (\<exists>out1 s1 s0.
           geocodeCity e (Str nm) s = (out1, s1) \<and>
           geocodeCity e (Str nm) (s\<lparr>storage := (storage s)(cache_key nm := None)\<rparr>) = (out1, s0) \<and>
           cache s1 = cache s0 \<and> storage s1 = storage s0 \<and>
           StorageRemove (cache_key nm) \<in> set (new_events s s1)))"
  using geocodeCity_failed [of e arg s out s' q] geocodeCity_malformed [of nm s stored e]
  by blast

theorem resolver_failures_witness:
  "fst (geocodeCity no_match_env (Str [0x897F, 0x5B89]) empty_state) = Inr JNull \<and>
   cache (snd (geocodeCity no_match_env (Str [0x897F, 0x5B89]) empty_state)) = cache empty_state \<and>
   StorageRemove (cache_key [0x897F, 0x5B89])
     \<in> set (log (snd (geocodeCity no_match_env (Str [0x897F, 0x5B89]) stale_state)))"
proof -
  obtain out s' where g: "geocodeCity no_match_env (Str [0x897F, 0x5B89]) empty_state = (out, s')"
    by force
  have f: "Fetch [0x897F, 0x5B89] \<in> set (new_events empty_state s')"
    using g by (auto simp: geo_defs no_match_env_def empty_state_def)
  have r: "failed_response (net no_match_env (fetches empty_state) [0x897F, 0x5B89])"
    by (simp add: failed_response_def no_match_env_def)
  have h: "[0x897F, 0x5B89] \<noteq> [] \<and> cache stale_state [0x897F, 0x5B89] = None \<and>
      storage stale_state (cache_key [0x897F, 0x5B89]) = Some [0x7B] \<and> [0x7B::jchar] \<noteq> [] \<and>
      json_parse no_match_env [0x7B] = None"
    by (simp add: stale_state_def no_match_env_def)
  from resolver_failures [of no_match_env "Str [0x897F, 0x5B89]" empty_state out s' "[0x897F, 0x5B89]"] g f r
  have a: "out = Inr JNull \<and> cache s' = cache empty_state" by blast
  from resolver_failures [of no_match_env _ stale_state _ _ _ "[0x897F, 0x5B89]" "[0x7B]"] h
  have "\<exists>out1 s1. geocodeCity no_match_env (Str [0x897F, 0x5B89]) stale_state = (out1, s1) \<and>
      StorageRemove (cache_key [0x897F, 0x5B89]) \<in> set (new_events stale_state s1)" by blast
  with a g show ?thesis by (auto simp: new_events_def stale_state_def)
qed

subsection \<open>Two calls in a row\<close>




subsection \<open>The coordinate of a lookup\<close>

text \<open>
  Claim C9 as stated fails: the coordinate is not checked. A first match with the latitude
  \<open>999\<close> gives a coordinate with that latitude.
\<close>

theorem coordinate_out_of_range_counterexample:
  "fst (geocodeCity far_env (Str [0x897F, 0x5B89]) empty_state) =
      Inr (JObj [(''lat'', JNum (Num 999)), (''lng'', JNum (Num 0))]) \<and>
   \<not> in_range 90 (Num 999)"
  by (simp add: geo_defs far_env_def empty_state_def float_defs)

text \<open>
  Claim C9, as amended. A value other than \<open>null\<close> that a call returns after a request
  is the object whose \<open>lat\<close> and \<open>lng\<close> are \<open>parseFloat\<close> of the fields \<open>lat\<close> and \<open>lon\<close>
  of the first match, as they are. Every value that the loop of \<open>handleGenerate\<close>
  spreads over a record comes from the resolver: the record is one of the input, the
  records before it led the loop to the list kept so far and to a state \<open>s0\<close>, and the
  value is truthy and is what \<open>geocodeCity\<close> returned in that state for the query of the
  record, or, after a falsy answer to the query, for the name of the record when the name
  differs from the query; the loop goes on from the state that this call left.
\<close>

theorem coordinate_from_provider:
  "(geocodeCity e arg s = (Inr c, s') \<and> Fetch q \<in> set (new_events s s') \<and> c \<noteq> JNull
    \<longrightarrow> (\<exists>m ms. net e (fetches s) q = Matches (m # ms) \<and>
           c = JObj [(''lat'', JNum (parseFloat (lat m))), (''lng'', JNum (parseFloat (lon m)))]))
   \<and> (geocode_loop e locs [] s = (Inr out, s'') \<and> out = kb @ (loc, v) # ka
    \<longrightarrow> truthy v \<and>
       (\<exists>pre post s0 s1.
          locs = pre @ loc # post \<and>
          geocode_loop e pre [] s = (Inr kb, s0) \<and>
          (geocodeCity e (Str (geoName loc)) s0 = (Inr v, s1) \<or>
           (\<exists>v0 sm. geocodeCity e (Str (geoName loc)) s0 = (Inr v0, sm) \<and> \<not> truthy v0 \<and>
              geoName loc \<noteq> name loc \<and> geocodeCity e (Str (name loc)) sm = (Inr v, s1))) \<and>
          geocode_loop e post (kb @ [(loc, v)]) s1 = (Inr out, s'')))"
proof -
  have 1: "geocodeCity e arg s = (Inr c, s') \<and> Fetch q \<in> set (new_events s s') \<and> c \<noteq> JNull
    \<longrightarrow> (\<exists>m ms. net e (fetches s) q = Matches (m # ms) \<and>
           c = JObj [(''lat'', JNum (parseFloat (lat m))), (''lng'', JNum (parseFloat (lon m)))])"
    using geocodeCity_value [of e arg s c s' q] by blast
  have 2: "geocode_loop e locs [] s = (Inr out, s'') \<and> out = kb @ (loc, v) # ka
    \<longrightarrow> truthy v \<and>
       (\<exists>pre post s0 s1.
          locs = pre @ loc # post \<and>
          geocode_loop e pre [] s = (Inr kb, s0) \<and>
          (geocodeCity e (Str (geoName loc)) s0 = (Inr v, s1) \<or>
           (\<exists>v0 sm. geocodeCity e (Str (geoName loc)) s0 = (Inr v0, sm) \<and> \<not> truthy v0 \<and>
              geoName loc \<noteq> name loc \<and> geocodeCity e (Str (name loc)) sm = (Inr v, s1))) \<and>
          geocode_loop e post (kb @ [(loc, v)]) s1 = (Inr out, s''))"
    using geocode_loop_provenance [of e locs s out s'' kb loc v ka] by blast
  from 1 2 show ?thesis by (rule conjI)
qed

section \<open>Properties of the orchestrator\<close>

subsection \<open>The query of a location\<close>

text \<open>The pattern after the marker takes what \<open>after_marker\<close> describes.\<close>

lemma modern_name_after_marker: "modern_name s = after_marker s"
  unfolding modern_name_def
  by (induction s)
     (auto simp: lit_def starts_with_def not_close_plus_def Let_def takeWhile_eq_Nil_iff
       split: option.splits list.splits)

lemma includes_single: "js_includes s [c] \<longleftrightarrow> c \<in> set s"
  by (induction s) (auto simp: starts_with_def)

lemma after_marker_mem: "after_marker s = Some m \<Longrightarrow> jin \<in> set s"
  by (induction s) (auto split: if_splits)

text \<open>Removing the spans leaves no span.\<close>

lemma lazy_close_iff: "dot_star_lazy (one_of is_close rest) s \<noteq> None \<longleftrightarrow> closes s"
  by (induction s) (auto simp: one_of_def rest_def)

lemma paren_match_iff: "paren_match (c # s) \<noteq> None \<longleftrightarrow> is_open c \<and> closes s"
  using lazy_close_iff [of s] by (auto simp: paren_match_def one_of_def)

lemma open_not_lt: "is_open c \<Longrightarrow> \<not> is_lt c \<and> \<not> is_close c"
  by (auto simp: is_open_def is_lt_def is_close_def)

lemma closes_strip: "closes (strip_parens_from False s) \<Longrightarrow> closes s"
proof (induction s)
  case Nil
  then show ?case by simp
next
  case (Cons c s)
  show ?case
  proof (cases "is_open c \<and> closes s")
    case True
    then show ?thesis using open_not_lt [of c] by simp
  next
    case False
    with Cons show ?thesis using paren_match_iff [of c s] by auto
  qed
qed

lemma no_span_left:
  "\<not> has_paren_span (strip_parens_from False s) \<and>
   (closes s \<longrightarrow> \<not> has_paren_span (strip_parens_from True s))"
proof (induction s)
  case Nil
  then show ?case by simp
next
  case (Cons c s)
  have F: "\<not> has_paren_span (strip_parens_from False (c # s))"
  proof (cases "is_open c \<and> closes s")
    case True
    with Cons show ?thesis using paren_match_iff [of c s] by simp
  next
    case False
    with Cons closes_strip [of s] show ?thesis using paren_match_iff [of c s] by auto
  qed
  have T: "closes (c # s) \<longrightarrow> \<not> has_paren_span (strip_parens_from True (c # s))"
    using Cons by auto
  from F T show ?case by blast
qed

lemma strip_parens_none:
  "\<forall>c\<in>set s. \<not> is_open c \<Longrightarrow> strip_parens_from False s = s"
proof (induction s)
  case Nil
  then show ?case by simp
next
  case (Cons c s)
  then show ?case using paren_match_iff [of c s] by auto
qed

text \<open>What the removal does at the first opening parenthesis.\<close>

lemma strip_skip_prefix:
  "\<forall>c\<in>set pre. \<not> is_open c \<Longrightarrow>
   strip_parens_from False (pre @ r) = pre @ strip_parens_from False r"
proof (induction pre)
  case Nil
  then show ?case by simp
next
  case (Cons c pre)
  then show ?case using paren_match_iff [of c "pre @ r"] by auto
qed

lemma closes_span:
  "\<forall>c\<in>set mid. \<not> is_close c \<and> \<not> is_lt c \<Longrightarrow> is_close cl \<Longrightarrow> closes (mid @ cl # post)"
  by (induction mid) auto

lemma strip_inside_span:
  "\<forall>c\<in>set mid. \<not> is_close c \<Longrightarrow> is_close cl \<Longrightarrow>
   strip_parens_from True (mid @ cl # post) = strip_parens_from False post"
  by (induction mid) auto

lemma strip_parens_span:
  assumes "\<forall>c\<in>set pre. \<not> is_open c" "is_open opn"
    "\<forall>c\<in>set mid. \<not> is_close c \<and> \<not> is_lt c" "is_close cl"
  shows "strip_parens (pre @ opn # mid @ cl # post) = pre @ strip_parens post"
proof -
  from assms(3,4) have c: "closes (mid @ cl # post)" by (rule closes_span)
  from assms(3) have m: "\<forall>c\<in>set mid. \<not> is_close c" by blast
  have "strip_parens_from False (opn # mid @ cl # post) = strip_parens_from True (mid @ cl # post)"
    using assms(2) c paren_match_iff [of opn "mid @ cl # post"] by simp
  also have "\<dots> = strip_parens_from False post" using m assms(4) by (rule strip_inside_span)
  finally show ?thesis using strip_skip_prefix [OF assms(1)] by (simp add: strip_parens_def)
qed

lemma strip_parens_unclosed:
  assumes "\<forall>c\<in>set pre. \<not> is_open c" "\<not> closes r"
  shows "strip_parens (pre @ opn # r) = pre @ opn # strip_parens r"
proof -
  have "strip_parens_from False (opn # r) = opn # strip_parens_from False r"
    using assms(2) paren_match_iff [of opn r] by simp
  then show ?thesis using strip_skip_prefix [OF assms(1)] by (simp add: strip_parens_def)
qed

text \<open>Trimming, and the records of the extractor.\<close>

lemma trim_fixed: "s = [] \<or> (\<not> is_ws (hd s) \<and> \<not> is_ws (last s)) \<Longrightarrow> trim s = s"
proof (cases "s = []")
  case True
  then show ?thesis by (simp add: trim_def)
next
  case False
  assume "s = [] \<or> (\<not> is_ws (hd s) \<and> \<not> is_ws (last s))"
  with False have h: "\<not> is_ws (hd s)" and l: "\<not> is_ws (last s)" by auto
  from h False have "dropWhile is_ws s = s" by (simp add: dropWhile_eq_self_iff)
  moreover from l False have "dropWhile is_ws (rev s) = rev s"
    by (simp add: dropWhile_eq_self_iff hd_rev)
  ultimately show ?thesis by (simp add: trim_def)
qed

lemma trim_ends: "trim s = [] \<or> (\<not> is_ws (hd (trim s)) \<and> \<not> is_ws (last (trim s)))"
  by (metis (no_types, lifting) dropWhile_eq_Nil_conv dropWhile_idem
    dropWhile_last hd_dropWhile last_rev rev.simps(1) rev_swap trim_def)

lemma trim_idem: "trim (trim s) = trim s"
  using trim_ends [of s] by (rule trim_fixed)

lemma trim_core:
  assumes "\<forall>c\<in>set l. is_ws c" "\<forall>c\<in>set r. is_ws c"
    "m = [] \<or> (\<not> is_ws (hd m) \<and> \<not> is_ws (last m))"
  shows "trim (l @ m @ r) = m"
proof (cases "m = []")
  case True
  from assms(1,2) have "\<forall>c\<in>set (l @ r). is_ws c" by auto
  then have d: "dropWhile is_ws (l @ r) = []" by (metis dropWhile_eq_Nil_conv)
  show ?thesis
    unfolding True trim_def by (simp only: append_Nil d rev.simps dropWhile.simps)
next
  case False
  with assms(3) have h: "\<not> is_ws (hd m)" and la: "\<not> is_ws (last m)" by auto
  from False h have a: "dropWhile is_ws (m @ r) = m @ r"
    by (cases m) auto
  from assms(1) have b: "dropWhile is_ws (l @ (m @ r)) = dropWhile is_ws (m @ r)"
    by (intro dropWhile_append2) blast
  from False la have c: "dropWhile is_ws (rev m) = rev m"
    by (cases "rev m") (auto simp: hd_rev)
  from assms(2) have d: "dropWhile is_ws (rev r @ rev m) = dropWhile is_ws (rev m)"
    by (intro dropWhile_append2) (simp add: assms(2))
  have "trim (l @ m @ r) = rev (dropWhile is_ws (rev (m @ r)))"
    unfolding trim_def by (simp only: a b)
  also have "\<dots> = rev (dropWhile is_ws (rev r @ rev m))" by (simp only: rev_append)
  also have "\<dots> = m" by (simp only: d c rev_rev_ident)
  finally show ?thesis .
qed

lemma extractField_trimmed: "extractField line kp = Some d \<Longrightarrow> trim d = d"
  by (auto simp: extractField_def trim_idem)

lemma clean_new_location: "clean (new_location h)"
  by (simp add: clean_def new_location_def Let_def trim_idem split: prod.splits)

lemma clean_read_fields: "clean c \<Longrightarrow> clean (read_fields c line)"
  by (auto simp: clean_def read_fields_def Let_def extractField_trimmed split: option.splits)

lemma location_loop_clean:
  "foldl location_line (acc, cur) ls = (acc', cur') \<Longrightarrow>
   \<forall>l\<in>set (acc @ open_record cur). clean l \<Longrightarrow>
   \<forall>l\<in>set (acc' @ open_record cur'). clean l"
proof (induction ls arbitrary: acc cur)
  case Nil
  then show ?case by simp
next
  case (Cons l ls)
  obtain a c where st: "location_line (acc, cur) l = (a, c)" by force
  with Cons.prems have f: "foldl location_line (a, c) ls = (acc', cur')" by simp
  have "\<forall>l\<in>set (a @ open_record c). clean l"
    using st Cons.prems(2)
    by (cases "header_match l"; cases cur)
       (auto simp: location_line_def clean_new_location clean_read_fields)
  from Cons.IH [OF f this] show ?case .
qed

lemma parse_locations_clean: "loc \<in> set (parse_locations ls) \<Longrightarrow> clean loc"
proof -
  assume m: "loc \<in> set (parse_locations ls)"
  obtain a c where st: "foldl location_line ([], None) ls = (a, c)" by force
  from location_loop_clean [OF this] have "\<forall>l\<in>set (a @ open_record c). clean l" by simp
  moreover have "parse_locations ls = a @ open_record c"
    using st by (cases c) (simp_all add: parse_locations_def)
  ultimately show ?thesis using m by simp
qed

lemma extracted_clean: "loc \<in> set (locations (parseMarkdown markdown)) \<Longrightarrow> clean loc"
  by (simp add: locations_parseMarkdown parse_locations_clean)

lemma geoName_eq:
  "geoName loc =
     (let base = (case locationDesc loc of Some d \<Rightarrow> if d = [] then name loc else d
                  | None \<Rightarrow> name loc);
          picked = (case after_marker base of Some m \<Rightarrow> m | None \<Rightarrow> base);
          g = trim (strip_parens picked)
      in if g = [] then name loc else g)"
proof -
  have "\<And>b. (if js_includes b [jin] then (case modern_name b of Some m \<Rightarrow> m | None \<Rightarrow> b) else b)
      = (case after_marker b of Some m \<Rightarrow> m | None \<Rightarrow> b)"
    using after_marker_mem
    by (auto simp: includes_single modern_name_after_marker split: option.splits)
  then show ?thesis
    by (simp add: geoName_def Let_def split: option.splits)
qed

text \<open>
  Claim C5 as stated fails: parenthesized content can stay in the query. When the marker
  comes before the parentheses, the text taken after it runs up to the closing
  parenthesis and so holds the opening one, which is then unclosed and kept with what
  follows it; and of nested parentheses only the part up to the first closing one is
  removed. And a name with neither marker nor parenthesis is changed when it has white
  space at an end.
\<close>

theorem geoName_keeps_parenthesized_counterexample:
  "geoName \<lparr>name = [0x5357, 0x4EAC], type = Normal, time = [], desc = [], significance = [],
             quotes = [], locationDesc = Some [0x4ECA, 0x5357, 0x4EAC, 0xFF08, 0x53E4, 0x91D1, 0x9675, 0xFF09]\<rparr> = [0x5357, 0x4EAC, 0xFF08, 0x53E4, 0x91D1, 0x9675]
   \<and> geoName \<lparr>name = [0x5357, 0x4EAC], type = Normal, time = [], desc = [], significance = [],
             quotes = [], locationDesc = Some [0x91D1, 0x9675, 0x28, 0x53E4, 0x79F0, 0x28, 0x5EFA, 0x5EB7, 0x29, 0x5434, 0x29]\<rparr> = [0x91D1, 0x9675, 0x5434, 0x29]
   \<and> geoName \<lparr>name = [0x20, 0x897F, 0x5B89], type = Normal, time = [], desc = [], significance = [],
             quotes = [], locationDesc = None\<rparr> = [0x897F, 0x5B89]"
  by code_simp

text \<open>
  Claim C5, as amended. The base string is the location description when the record has
  one, else the name. The text after the marker (when the marker is followed by something
  to take) replaces the base. Then the spans are removed from the left, a span going from
  an opening parenthesis to the nearest closing one after it on the same line, so that no
  such span is left: a string without opening parenthesis stays as it is, a first opening
  parenthesis that is closed goes with everything up to the closing one, and one that is
  not closed stays. The result is trimmed (the white space at both ends goes, nothing
  else), and the name stands in for an empty result. A base with neither the marker nor a
  parenthesis and without white space at its ends is the query, unchanged; the base of a
  record of the extractor has no white space at its ends.
\<close>

theorem geoName_rule:
  "(base = (case locationDesc loc of Some d \<Rightarrow> if d = [] then name loc else d
            | None \<Rightarrow> name loc) \<and>
    picked = (case after_marker base of Some m \<Rightarrow> m | None \<Rightarrow> base)
    \<longrightarrow> geoName loc = (if trim (strip_parens picked) = [] then name loc
                       else trim (strip_parens picked))
        \<and> \<not> has_paren_span (strip_parens picked)
        \<and> (jin \<notin> set base \<and> (\<forall>c\<in>set base. \<not> is_open c \<and> \<not> is_close c) \<and>
           trim base = base
           \<longrightarrow> geoName loc = base)
        \<and> (loc \<in> set (locations (parseMarkdown markdown)) \<longrightarrow> trim base = base))
   \<and> ((\<forall>c\<in>set pre. \<not> is_open c) \<longrightarrow> strip_parens pre = pre)
   \<and> ((\<forall>c\<in>set pre. \<not> is_open c) \<and> is_open opn \<and>
       (\<forall>c\<in>set mid. \<not> is_close c \<and> \<not> is_lt c) \<and> is_close cl
       \<longrightarrow> strip_parens (pre @ opn # mid @ cl # post) = pre @ strip_parens post)
   \<and> ((\<forall>c\<in>set pre. \<not> is_open c) \<and> \<not> closes r
       \<longrightarrow> strip_parens (pre @ opn # r) = pre @ opn # strip_parens r)
   \<and> ((\<forall>c\<in>set l. is_ws c) \<and> (\<forall>c\<in>set t. is_ws c) \<and>
       (core = [] \<or> (\<not> is_ws (hd core) \<and> \<not> is_ws (last core)))
       \<longrightarrow> trim (l @ core @ t) = core)"
proof -
  have 1: "base = (case locationDesc loc of Some d \<Rightarrow> if d = [] then name loc else d
            | None \<Rightarrow> name loc) \<and>
    picked = (case after_marker base of Some m \<Rightarrow> m | None \<Rightarrow> base)
    \<longrightarrow> geoName loc = (if trim (strip_parens picked) = [] then name loc
                       else trim (strip_parens picked))
        \<and> \<not> has_paren_span (strip_parens picked)
        \<and> (jin \<notin> set base \<and> (\<forall>c\<in>set base. \<not> is_open c \<and> \<not> is_close c) \<and>
           trim base = base
           \<longrightarrow> geoName loc = base)
        \<and> (loc \<in> set (locations (parseMarkdown markdown)) \<longrightarrow> trim base = base)"
  proof (intro impI conjI)
    assume h: "base = (case locationDesc loc of Some d \<Rightarrow> if d = [] then name loc else d
            | None \<Rightarrow> name loc) \<and>
      picked = (case after_marker base of Some m \<Rightarrow> m | None \<Rightarrow> base)"
    then have hb: "(case locationDesc loc of Some d \<Rightarrow> if d = [] then name loc else d
             | None \<Rightarrow> name loc) = base"
      and hp: "(case after_marker base of Some m \<Rightarrow> m | None \<Rightarrow> base) = picked" by simp_all
    show g: "geoName loc = (if trim (strip_parens picked) = [] then name loc
                        else trim (strip_parens picked))"
      by (simp only: geoName_eq Let_def hb hp)
    show "\<not> has_paren_span (strip_parens picked)"
      using no_span_left [of picked] by (simp add: strip_parens_def)
    from h have bn: "base = [] \<longrightarrow> name loc = []"
      by (auto split: option.splits if_splits)
    {
      assume e: "jin \<notin> set base \<and> (\<forall>c\<in>set base. \<not> is_open c \<and> \<not> is_close c) \<and>
           trim base = base"
      then have "after_marker base = None"
        using after_marker_mem [of base] by (cases "after_marker base") auto
      with h have pb: "picked = base" by simp
      from e have sp: "strip_parens base = base"
        by (simp add: strip_parens_def strip_parens_none)
      from e have tb: "trim base = base" by simp
      from g pb sp tb bn show "geoName loc = base" by auto
    }
    assume "loc \<in> set (locations (parseMarkdown markdown))"
    then have "clean loc" by (rule extracted_clean)
    with h show "trim base = base"
      by (auto simp: clean_def split: option.splits if_splits)
  qed
  have 2: "(\<forall>c\<in>set pre. \<not> is_open c) \<longrightarrow> strip_parens pre = pre"
    by (simp add: strip_parens_def strip_parens_none)
  have 3: "(\<forall>c\<in>set pre. \<not> is_open c) \<and> is_open opn \<and>
       (\<forall>c\<in>set mid. \<not> is_close c \<and> \<not> is_lt c) \<and> is_close cl
       \<longrightarrow> strip_parens (pre @ opn # mid @ cl # post) = pre @ strip_parens post"
    using strip_parens_span [of pre opn mid cl post] by blast
  have 4: "(\<forall>c\<in>set pre. \<not> is_open c) \<and> \<not> closes r
       \<longrightarrow> strip_parens (pre @ opn # r) = pre @ opn # strip_parens r"
    using strip_parens_unclosed [of pre r opn] by blast
  have 5: "(\<forall>c\<in>set l. is_ws c) \<and> (\<forall>c\<in>set t. is_ws c) \<and>
       (core = [] \<or> (\<not> is_ws (hd core) \<and> \<not> is_ws (last core)))
       \<longrightarrow> trim (l @ core @ t) = core"
    using trim_core [of l t core] by blast
  from 1 2 3 4 5 show ?thesis by (intro conjI)
qed

subsection \<open>The loop\<close>

text \<open>
  When every query and every name is well-formed UTF-16, no call throws: the loop runs to
  its end, and the records it keeps are in the order of the input.
\<close>

lemma geocodeCity_returns:
  "well_formed nm \<Longrightarrow> \<exists>v s'. geocodeCity e (Str nm) s = (Inr v, s')"
  by (auto simp: geocodeCity_def from_network_def Let_def
      split: option.splits prod.splits response.splits list.splits)

lemma locate_returns:
  assumes "well_formed (geoName loc)" "well_formed (name loc)"
  shows "\<exists>r s'. locate e loc s = (Inr r, s')"
proof -
  from geocodeCity_returns [OF assms(1)] obtain v s1 where
    g1: "geocodeCity e (Str (geoName loc)) s = (Inr v, s1)" by blast
  from geocodeCity_returns [OF assms(2)] obtain v2 s2 where
    g2: "geocodeCity e (Str (name loc)) s1 = (Inr v2, s2)" by blast
  from g1 g2 show ?thesis by (simp add: locate_def)
qed

lemma geocode_loop_returns:
  "\<forall>loc\<in>set locs. well_formed (geoName loc) \<and> well_formed (name loc) \<Longrightarrow>
   \<exists>out s'. geocode_loop e locs acc s = (Inr (acc @ out), s') \<and> subseq (map fst out) locs"
proof (induction locs arbitrary: acc s)
  case Nil
  then show ?case by simp
next
  case (Cons l locs)
  then obtain r s1 where lo: "locate e l s = (Inr r, s1)"
    using locate_returns [of l e s] by auto
  show ?case
  proof (cases r)
    case None
    from Cons.IH [of acc s1] Cons.prems obtain out s' where
      "geocode_loop e locs acc s1 = (Inr (acc @ out), s')" "subseq (map fst out) locs" by auto
    with lo None show ?thesis by auto
  next
    case (Some c)
    from Cons.IH [of "acc @ [(l, c)]" s1] Cons.prems obtain out s' where
      o: "geocode_loop e locs (acc @ [(l, c)]) s1 = (Inr ((acc @ [(l, c)]) @ out), s')"
      "subseq (map fst out) locs" by auto
    then have "geocode_loop e (l # locs) acc s = (Inr (acc @ (l, c) # out), s') \<and>
        subseq (map fst ((l, c) # out)) (l # locs)"
      using lo Some by simp
    then show ?thesis by blast
  qed
qed

text \<open>The example run, step by step.\<close>

lemma example_parse:
  "locations (parseMarkdown [0x23, 0x23, 0x20, 0x4EBA, 0x751F, 0x5386, 0x7A0B, 0xA, 0x23, 0x23, 0x23, 0x20, 0x6D1B, 0x9633, 0xA, 0x23, 0x23, 0x23, 0x20, 0xD83D, 0xDFE2, 0x20, 0x51FA, 0x751F, 0x5730, 0xFF1A, 0x957F, 0x5B89, 0xA, 0x2D, 0x20, 0x2A, 0x2A, 0x4F4D, 0x7F6E, 0x2A, 0x2A, 0xFF1A, 0x957F, 0x5B89, 0x57CE]) = [luoyang_record, changan_record ([0xDFE2, 0x20] @ [0x957F, 0x5B89])]"
  "locations (parseMarkdown [0x23, 0x23, 0x20, 0x4EBA, 0x751F, 0x5386, 0x7A0B, 0xA, 0x23, 0x23, 0x23, 0x20, 0x6D1B, 0x9633, 0xA, 0x23, 0x23, 0x23, 0x20, 0x51FA, 0x751F, 0x5730, 0xFF1A, 0x957F, 0x5B89, 0xA, 0x2D, 0x20, 0x2A, 0x2A, 0x4F4D, 0x7F6E, 0x2A, 0x2A, 0xFF1A, 0x957F, 0x5B89, 0x57CE]) = [luoyang_record, changan_record [0x957F, 0x5B89]]"
  by code_simp+

lemma example_queries:
  "geoName luoyang_record = [0x6D1B, 0x9633]" "geoName (changan_record h) = [0x957F, 0x5B89, 0x57CE]"
  "name luoyang_record = [0x6D1B, 0x9633]" "name (changan_record h) = h"
  by (simp_all add: luoyang_record_def changan_record_def geoName_def Let_def
      starts_with_def modern_name_def lit_def strip_parens_def paren_match_def one_of_def
      is_open_def trim_def is_ws_def)

lemma example_loops:
  "fst (geocode_loop luoyang_env [luoyang_record, changan_record ([0xDFE2, 0x20] @ [0x957F, 0x5B89])] []
        empty_state) = Inl URIError"
  "fst (geocode_loop luoyang_env [luoyang_record, changan_record [0x957F, 0x5B89]] [] empty_state) =
     Inr [(luoyang_record, JObj [(''lat'', JNum (Num 34)), (''lng'', JNum (Num 112))])]"
  by (simp_all add: locate_def example_queries geo_defs luoyang_env_def empty_state_def
      float_defs)

text \<open>
  Claim C1 fails on the code. The header pattern has no \<open>u\<close> flag, so its optional class
  takes only the high surrogate of a leading emoji and the name of the record starts with
  the low surrogate. When the query of such a record finds nothing, the second request,
  for the name, throws the \<open>URIError\<close> of \<open>encodeURIComponent\<close>, which is outside the
  \<open>try\<close> block of \<open>geocodeCity\<close>: the run ends with the error message, although the
  first record was resolved. The same document without the emoji gives the map with
  that one record.
\<close>

theorem run_aborts_on_lone_surrogate:
  "locations (parseMarkdown [0x23, 0x23, 0x20, 0x4EBA, 0x751F, 0x5386, 0x7A0B, 0xA, 0x23, 0x23, 0x23, 0x20, 0x6D1B, 0x9633, 0xA, 0x23, 0x23, 0x23, 0x20, 0xD83D, 0xDFE2, 0x20, 0x51FA, 0x751F, 0x5730, 0xFF1A, 0x957F, 0x5B89, 0xA, 0x2D, 0x20, 0x2A, 0x2A, 0x4F4D, 0x7F6E, 0x2A, 0x2A, 0xFF1A, 0x957F, 0x5B89, 0x57CE]) = [luoyang_record, changan_record ([0xDFE2, 0x20] @ [0x957F, 0x5B89])] \<and>
   fst (handleGenerate luoyang_env [0x23, 0x23, 0x20, 0x4EBA, 0x751F, 0x5386, 0x7A0B, 0xA, 0x23, 0x23, 0x23, 0x20, 0x6D1B, 0x9633, 0xA, 0x23, 0x23, 0x23, 0x20, 0xD83D, 0xDFE2, 0x20, 0x51FA, 0x751F, 0x5730, 0xFF1A, 0x957F, 0x5B89, 0xA, 0x2D, 0x20, 0x2A, 0x2A, 0x4F4D, 0x7F6E, 0x2A, 0x2A, 0xFF1A, 0x957F, 0x5B89, 0x57CE] empty_state) = ErrorMessage URIError \<and>
   fst (handleGenerate luoyang_env [0x23, 0x23, 0x20, 0x4EBA, 0x751F, 0x5386, 0x7A0B, 0xA, 0x23, 0x23, 0x23, 0x20, 0x6D1B, 0x9633, 0xA, 0x23, 0x23, 0x23, 0x20, 0x51FA, 0x751F, 0x5730, 0xFF1A, 0x957F, 0x5B89, 0xA, 0x2D, 0x20, 0x2A, 0x2A, 0x4F4D, 0x7F6E, 0x2A, 0x2A, 0xFF1A, 0x957F, 0x5B89, 0x57CE] empty_state) =
     MapMessage [(luoyang_record, JObj [(''lat'', JNum (Num 34)), (''lng'', JNum (Num 112))])] []"
proof -
  obtain r1 s1 where g1: "geocode_loop luoyang_env
      [luoyang_record, changan_record ([0xDFE2, 0x20] @ [0x957F, 0x5B89])] [] empty_state = (r1, s1)"
    by force
  with example_loops(1) have r1: "r1 = Inl URIError" by (simp del: geocode_loop.simps)
  obtain r2 s2 where g2: "geocode_loop luoyang_env
      [luoyang_record, changan_record [0x957F, 0x5B89]] [] empty_state = (r2, s2)"
    by force
  with example_loops(2) have r2: "r2 =
      Inr [(luoyang_record, JObj [(''lat'', JNum (Num 34)), (''lng'', JNum (Num 112))])]"
    by (simp del: geocode_loop.simps)
  have i: "intro (parseMarkdown [0x23, 0x23, 0x20, 0x4EBA, 0x751F, 0x5386, 0x7A0B, 0xA, 0x23, 0x23, 0x23, 0x20, 0x6D1B, 0x9633, 0xA, 0x23, 0x23, 0x23, 0x20, 0x51FA, 0x751F, 0x5730, 0xFF1A, 0x957F, 0x5B89, 0xA, 0x2D, 0x20, 0x2A, 0x2A, 0x4F4D, 0x7F6E, 0x2A, 0x2A, 0xFF1A, 0x957F, 0x5B89, 0x57CE]) = []" by code_simp
  from g1 r1 g2 r2 i show ?thesis
    by (simp add: handleGenerate_def example_parse del: geocode_loop.simps)
qed

text \<open>
  The rule at the example of the claim, at a description with a closed parenthesis, and
  at a record of the example run.
\<close>

theorem geoName_rule_witness:
  "geoName \<lparr>name = [0x91D1, 0x9675], type = Normal, time = [], desc = [], significance = [],
             quotes = [], locationDesc = Some [0x91D1, 0x9675, 0xFF08, 0x4ECA, 0x5357, 0x4EAC, 0xFF09]\<rparr> = [0x5357, 0x4EAC]
   \<and> strip_parens ([0x957F, 0x5B89] @ lparen # [0x53E4, 0x90FD] @ rparen # []) = [0x957F, 0x5B89]
   \<and> geoName luoyang_record = [0x6D1B, 0x9633]"
proof -
  let ?loc = "\<lparr>name = [0x91D1, 0x9675], type = Normal, time = [], desc = [], significance = [],
             quotes = [], locationDesc = Some [0x91D1, 0x9675, 0xFF08, 0x4ECA, 0x5357, 0x4EAC, 0xFF09]\<rparr>"
  have a: "[0x91D1, 0x9675, 0xFF08, 0x4ECA, 0x5357, 0x4EAC, 0xFF09] = (case locationDesc ?loc of Some d \<Rightarrow> if d = [] then name ?loc else d
           | None \<Rightarrow> name ?loc) \<and>
     [0x5357, 0x4EAC] = (case after_marker [0x91D1, 0x9675, 0xFF08, 0x4ECA, 0x5357, 0x4EAC, 0xFF09] of Some m \<Rightarrow> m | None \<Rightarrow> [0x91D1, 0x9675, 0xFF08, 0x4ECA, 0x5357, 0x4EAC, 0xFF09])"
    by (simp add: is_close_def)
  have t: "trim (strip_parens [0x5357, 0x4EAC]) = [0x5357, 0x4EAC]" by code_simp
  note r1 = geoName_rule [of "[0x91D1, 0x9675, 0xFF08, 0x4ECA, 0x5357, 0x4EAC, 0xFF09]" ?loc "[0x5357, 0x4EAC]" "[]", THEN conjunct1]
  from r1 a
  have "geoName ?loc = (if trim (strip_parens [0x5357, 0x4EAC]) = [] then name ?loc
                        else trim (strip_parens [0x5357, 0x4EAC]))
      \<and> \<not> has_paren_span (strip_parens [0x5357, 0x4EAC])
      \<and> (jin \<notin> set [0x91D1, 0x9675, 0xFF08, 0x4ECA, 0x5357, 0x4EAC, 0xFF09] \<and> (\<forall>c\<in>set [0x91D1, 0x9675, 0xFF08, 0x4ECA, 0x5357, 0x4EAC, 0xFF09]. \<not> is_open c \<and> \<not> is_close c) \<and>
          trim [0x91D1, 0x9675, 0xFF08, 0x4ECA, 0x5357, 0x4EAC, 0xFF09] = [0x91D1, 0x9675, 0xFF08, 0x4ECA, 0x5357, 0x4EAC, 0xFF09]
          \<longrightarrow> geoName ?loc = [0x91D1, 0x9675, 0xFF08, 0x4ECA, 0x5357, 0x4EAC, 0xFF09])
      \<and> (?loc \<in> set (locations (parseMarkdown [])) \<longrightarrow> trim [0x91D1, 0x9675, 0xFF08, 0x4ECA, 0x5357, 0x4EAC, 0xFF09] = [0x91D1, 0x9675, 0xFF08, 0x4ECA, 0x5357, 0x4EAC, 0xFF09])"
    by (rule mp)
  then have "geoName ?loc = (if trim (strip_parens [0x5357, 0x4EAC]) = [] then name ?loc
                        else trim (strip_parens [0x5357, 0x4EAC]))"
    by (rule conjunct1)
  with t have 1: "geoName ?loc = [0x5357, 0x4EAC]" by simp
  have s: "(\<forall>c\<in>set [0x957F, 0x5B89]. \<not> is_open c) \<and> is_open lparen \<and>
      (\<forall>c\<in>set [0x53E4, 0x90FD]. \<not> is_close c \<and> \<not> is_lt c) \<and> is_close rparen"
    by (simp add: is_open_def is_close_def is_lt_def)
  note r2 = geoName_rule [of _ _ _ _ "[0x957F, 0x5B89]" lparen "[0x53E4, 0x90FD]" rparen "[]",
      THEN conjunct2, THEN conjunct2, THEN conjunct1]
  from r2 s
  have "strip_parens ([0x957F, 0x5B89] @ lparen # [0x53E4, 0x90FD] @ rparen # []) =
      [0x957F, 0x5B89] @ strip_parens []"
    by (rule mp)
  then have 2: "strip_parens ([0x957F, 0x5B89] @ lparen # [0x53E4, 0x90FD] @ rparen # []) = [0x957F, 0x5B89]"
    by (simp add: strip_parens_def)
  have b: "[0x6D1B, 0x9633] = (case locationDesc luoyang_record of
             Some d \<Rightarrow> if d = [] then name luoyang_record else d
           | None \<Rightarrow> name luoyang_record) \<and>
     [0x6D1B, 0x9633] = (case after_marker [0x6D1B, 0x9633] of Some m \<Rightarrow> m | None \<Rightarrow> [0x6D1B, 0x9633])"
    by (simp add: luoyang_record_def)
  have c: "luoyang_record \<in> set (locations (parseMarkdown [0x23, 0x23, 0x20, 0x4EBA, 0x751F, 0x5386, 0x7A0B, 0xA, 0x23, 0x23, 0x23, 0x20, 0x6D1B, 0x9633, 0xA, 0x23, 0x23, 0x23, 0x20, 0x51FA, 0x751F, 0x5730, 0xFF1A, 0x957F, 0x5B89, 0xA, 0x2D, 0x20, 0x2A, 0x2A, 0x4F4D, 0x7F6E, 0x2A, 0x2A, 0xFF1A, 0x957F, 0x5B89, 0x57CE]))"
    by (simp add: example_parse)
  have d: "jin \<notin> set [0x6D1B, 0x9633] \<and> (\<forall>c\<in>set [0x6D1B, 0x9633]. \<not> is_open c \<and> \<not> is_close c)"
    by (simp add: is_open_def is_close_def)
  note r3 = geoName_rule [of "[0x6D1B, 0x9633]" luoyang_record "[0x6D1B, 0x9633]" "[0x23, 0x23, 0x20, 0x4EBA, 0x751F, 0x5386, 0x7A0B, 0xA, 0x23, 0x23, 0x23, 0x20, 0x6D1B, 0x9633, 0xA, 0x23, 0x23, 0x23, 0x20, 0x51FA, 0x751F, 0x5730, 0xFF1A, 0x957F, 0x5B89, 0xA, 0x2D, 0x20, 0x2A, 0x2A, 0x4F4D, 0x7F6E, 0x2A, 0x2A, 0xFF1A, 0x957F, 0x5B89, 0x57CE]", THEN conjunct1]
  from r3 b
  have k: "geoName luoyang_record = (if trim (strip_parens [0x6D1B, 0x9633]) = [] then name luoyang_record
                        else trim (strip_parens [0x6D1B, 0x9633]))
      \<and> \<not> has_paren_span (strip_parens [0x6D1B, 0x9633])
      \<and> (jin \<notin> set [0x6D1B, 0x9633] \<and> (\<forall>c\<in>set [0x6D1B, 0x9633]. \<not> is_open c \<and> \<not> is_close c) \<and>
          trim [0x6D1B, 0x9633] = [0x6D1B, 0x9633]
          \<longrightarrow> geoName luoyang_record = [0x6D1B, 0x9633])
      \<and> (luoyang_record \<in> set (locations (parseMarkdown [0x23, 0x23, 0x20, 0x4EBA, 0x751F, 0x5386, 0x7A0B, 0xA, 0x23, 0x23, 0x23, 0x20, 0x6D1B, 0x9633, 0xA, 0x23, 0x23, 0x23, 0x20, 0x51FA, 0x751F, 0x5730, 0xFF1A, 0x957F, 0x5B89, 0xA, 0x2D, 0x20, 0x2A, 0x2A, 0x4F4D, 0x7F6E, 0x2A, 0x2A, 0xFF1A, 0x957F, 0x5B89, 0x57CE])) \<longrightarrow> trim [0x6D1B, 0x9633] = [0x6D1B, 0x9633])"
    by (rule mp)
  from k [THEN conjunct2, THEN conjunct2, THEN conjunct2] c
  have tr: "trim [0x6D1B, 0x9633] = [0x6D1B, 0x9633]" by (rule mp)
  from d tr
  have "jin \<notin> set [0x6D1B, 0x9633] \<and>
      (\<forall>c\<in>set [0x6D1B, 0x9633]. \<not> is_open c \<and> \<not> is_close c) \<and>
      trim [0x6D1B, 0x9633] = [0x6D1B, 0x9633]"
    by blast
  with k [THEN conjunct2, THEN conjunct2, THEN conjunct1]
  have 3: "geoName luoyang_record = [0x6D1B, 0x9633]" by (rule mp)
  from 1 2 3 show ?thesis by (intro conjI)
qed

text \<open>The provenance of the one value that the example run keeps.\<close>

theorem coordinate_from_provider_witness:
  "fst (geocodeCity far_env (Str [0x897F, 0x5B89]) empty_state) =
      Inr (JObj [(''lat'', JNum (parseFloat [0x39, 0x39, 0x39])), (''lng'', JNum (parseFloat [0x30]))])
   \<and> truthy (JObj [(''lat'', JNum (Num 34)), (''lng'', JNum (Num 112))])
   \<and> (\<exists>pre post s0 s1.
        [luoyang_record, changan_record [0x957F, 0x5B89]] = pre @ luoyang_record # post \<and>
        geocode_loop luoyang_env pre [] empty_state = (Inr [], s0) \<and>
        (geocodeCity luoyang_env (Str (geoName luoyang_record)) s0 =
           (Inr (JObj [(''lat'', JNum (Num 34)), (''lng'', JNum (Num 112))]), s1) \<or>
         (\<exists>v0 sm. geocodeCity luoyang_env (Str (geoName luoyang_record)) s0 = (Inr v0, sm) \<and>
            \<not> truthy v0 \<and> geoName luoyang_record \<noteq> name luoyang_record \<and>
            geocodeCity luoyang_env (Str (name luoyang_record)) sm =
              (Inr (JObj [(''lat'', JNum (Num 34)), (''lng'', JNum (Num 112))]), s1))))"
proof -
  let ?w = "JObj [(''lat'', JNum (Num 34)), (''lng'', JNum (Num 112))]"
  obtain c s' where g: "geocodeCity far_env (Str [0x897F, 0x5B89]) empty_state = (Inr c, s')"
    by (simp add: geo_defs far_env_def empty_state_def Let_def)
  have f: "Fetch [0x897F, 0x5B89] \<in> set (new_events empty_state s')" and n: "c \<noteq> JNull"
    using g by (auto simp: geo_defs far_env_def empty_state_def Let_def)
  from coordinate_from_provider [of far_env "Str [0x897F, 0x5B89]" empty_state c s' "[0x897F, 0x5B89]"] g f n
  have 1: "fst (geocodeCity far_env (Str [0x897F, 0x5B89]) empty_state) =
      Inr (JObj [(''lat'', JNum (parseFloat [0x39, 0x39, 0x39])), (''lng'', JNum (parseFloat [0x30]))])"
    by (auto simp: far_env_def)
  obtain r2 s2 where g2: "geocode_loop luoyang_env
      [luoyang_record, changan_record [0x957F, 0x5B89]] [] empty_state = (r2, s2)"
    by force
  with example_loops(2) have r2: "r2 = Inr [(luoyang_record, ?w)]"
    by (simp del: geocode_loop.simps)
  have h: "geocode_loop luoyang_env [luoyang_record, changan_record [0x957F, 0x5B89]] [] empty_state =
      (Inr [(luoyang_record, ?w)], s2) \<and>
      [(luoyang_record, ?w)] = [] @ (luoyang_record, ?w) # []"
    using g2 r2 by (simp del: geocode_loop.simps)
  note r = coordinate_from_provider [of luoyang_env _ empty_state _ _ _
      "[luoyang_record, changan_record [0x957F, 0x5B89]]" "[(luoyang_record, ?w)]" s2 "[]"
      luoyang_record ?w "[]", THEN conjunct2]
  from r h
  have "truthy ?w \<and>
     (\<exists>pre post s0 s1.
        [luoyang_record, changan_record [0x957F, 0x5B89]] = pre @ luoyang_record # post \<and>
        geocode_loop luoyang_env pre [] empty_state = (Inr [], s0) \<and>
        (geocodeCity luoyang_env (Str (geoName luoyang_record)) s0 = (Inr ?w, s1) \<or>
         (\<exists>v0 sm. geocodeCity luoyang_env (Str (geoName luoyang_record)) s0 = (Inr v0, sm) \<and>
            \<not> truthy v0 \<and> geoName luoyang_record \<noteq> name luoyang_record \<and>
            geocodeCity luoyang_env (Str (name luoyang_record)) sm = (Inr ?w, s1))) \<and>
        geocode_loop luoyang_env post ([] @ [(luoyang_record, ?w)]) s1 =
          (Inr [(luoyang_record, ?w)], s2))"
    by (rule mp)
  then have 2: "truthy ?w \<and>
     (\<exists>pre post s0 s1.
        [luoyang_record, changan_record [0x957F, 0x5B89]] = pre @ luoyang_record # post \<and>
        geocode_loop luoyang_env pre [] empty_state = (Inr [], s0) \<and>
        (geocodeCity luoyang_env (Str (geoName luoyang_record)) s0 = (Inr ?w, s1) \<or>
         (\<exists>v0 sm. geocodeCity luoyang_env (Str (geoName luoyang_record)) s0 = (Inr v0, sm) \<and>
            \<not> truthy v0 \<and> geoName luoyang_record \<noteq> name luoyang_record \<and>
            geocodeCity luoyang_env (Str (name luoyang_record)) sm = (Inr ?w, s1))))"
    by blast
  from 1 2 show ?thesis by (rule conjI)
qed

end
